theory Spec2Isabelle
  imports Complex_Main "HOL-Library.AList"
begin

section \<open>The session hub of the collaboration server\<close>

text \<open>
  A shallow embedding of \<^verbatim>\<open>backend/api/websocket.py\<close> (the connection manager and the
  per-connection endpoint), \<^verbatim>\<open>backend/models/messages.py\<close> (the parameter record),
  \<^verbatim>\<open>backend/services/redis_service.py\<close> (the persistence facade) and
  \<^verbatim>\<open>backend/services/auth.py\<close> (token issue and verification).

  Conventions of the embedding:
  \<^item> Python floats are exact reals; rounding is not modelled.
  \<^item> A \<^verbatim>\<open>datetime\<close> is an integer count of microseconds, the resolution of the Python type.
    One clock reading \<open>now\<close> is taken per handled frame and passed to every
    \<^verbatim>\<open>datetime.utcnow()\<close> of that frame.
  \<^item> A Python exception is a value of type \<open>error\<close>; a function that mutates the manager
    and may raise returns \<open>error option \<times> world\<close>, since the mutations made before the
    raise stay in place.
  \<^item> A Python \<^verbatim>\<open>dict\<close> that is iterated is an association list in insertion order
    (\<open>AList.update\<close> overwrites in place or appends, as dict assignment does); a dict
    that is only looked up is a map.
  \<^item> A web socket is identified by a number. The set of sockets of a session is a
    duplicate-free list.
\<close>

subsection \<open>Basic types\<close>

type_synonym sid = string
type_synonym uid = string
type_synonym ws = nat
type_synonym instant = int

datatype error = KeyError | ValueError | TypeError | ValidationError | SendError

subsection \<open>models/messages.py: SessionState and User\<close>

record SessionState =
  mu :: real
  omega :: real
  kappa :: real
  beta :: "real option"

text \<open>\<^verbatim>\<open>SessionState()\<close>: the declared defaults; \<open>beta\<close> defaults to \<^verbatim>\<open>None\<close>.\<close>

definition SessionState_default :: SessionState where
  "SessionState_default = \<lparr>mu = 0.569, omega = 0.847, kappa = 0.0207, beta = None\<rparr>"

text \<open>
  \<^verbatim>\<open>SessionState(**fields)\<close>: construction validates the declared bounds
  (\<^verbatim>\<open>Field(ge=..., le=...)\<close>) and raises a validation error otherwise.
\<close>

definition SessionState_init :: "real \<Rightarrow> real \<Rightarrow> real \<Rightarrow> real option \<Rightarrow> error + SessionState" where
  "SessionState_init m om k b =
     (if 0.5 \<le> m \<and> m \<le> 0.7 \<and> 0.5 \<le> om \<and> om \<le> 1.5 \<and> 0.01 \<le> k \<and> k \<le> 0.05
      then Inr \<lparr>mu = m, omega = om, kappa = k, beta = b\<rparr>
      else Inl ValidationError)"

definition compute_beta :: "SessionState \<Rightarrow> real \<Rightarrow> SessionState" where
  "compute_beta s c = s\<lparr>beta := Some (1 - mu s - kappa s * c)\<rparr>"

text \<open>
  \<^verbatim>\<open>hasattr(state, key)\<close>. The object has its four fields and the method
  \<^verbatim>\<open>compute_beta\<close>; the attributes it inherits from the pydantic base class, which is
  not part of the repository, are the parameter \<open>inherited\<close>.
\<close>

definition field_names :: "string list" where
  "field_names = [''mu'', ''omega'', ''kappa'', ''beta'']"

definition hasattr_SessionState :: "(string \<Rightarrow> bool) \<Rightarrow> string \<Rightarrow> bool" where
  "hasattr_SessionState inherited key \<longleftrightarrow>
     key \<in> set field_names \<or> key = ''compute_beta'' \<or> inherited key"

text \<open>
  \<^verbatim>\<open>setattr(state, key, value)\<close>. The class sets no \<^verbatim>\<open>validate_assignment\<close>, so a
  field is overwritten without any bounds check; a name that is not a field is refused
  with a \<^verbatim>\<open>ValueError\<close>.
\<close>

definition setattr_SessionState :: "SessionState \<Rightarrow> string \<Rightarrow> real \<Rightarrow> error + SessionState" where
  "setattr_SessionState s key v =
     (if key = ''mu'' then Inr (s\<lparr>mu := v\<rparr>)
      else if key = ''omega'' then Inr (s\<lparr>omega := v\<rparr>)
      else if key = ''kappa'' then Inr (s\<lparr>kappa := v\<rparr>)
      else if key = ''beta'' then Inr (s\<lparr>beta := Some v\<rparr>)
      else Inl ValueError)"

text \<open>\<^verbatim>\<open>getattr(state, param, None)\<close>: a number, \<^verbatim>\<open>None\<close>, or some other object.\<close>

datatype attr = Float real | PyNone | OtherObject

definition getattr_SessionState :: "(string \<Rightarrow> bool) \<Rightarrow> SessionState \<Rightarrow> string \<Rightarrow> attr" where
  "getattr_SessionState inherited s param =
     (if param = ''mu'' then Float (mu s)
      else if param = ''omega'' then Float (omega s)
      else if param = ''kappa'' then Float (kappa s)
      else if param = ''beta'' then (case beta s of None \<Rightarrow> PyNone | Some b \<Rightarrow> Float b)
      else if hasattr_SessionState inherited param then OtherObject
      else PyNone)"

record User =
  User_id :: uid
  User_name :: string
  User_avatar :: "string option"
  User_color :: "string option"

subsection \<open>Wire messages sent by the server\<close>

type_synonym params = "(string \<times> real) list"

record conflict =
  param :: string
  yourValue :: real
  theirValue :: real
  theirUserId :: uid
  theirUserName :: string

text \<open>The \<^verbatim>\<open>type\<close> and \<^verbatim>\<open>payload\<close> of a server frame.\<close>

datatype body =
    AuthFailed string
  | AuthSuccess sid uid "User list" SessionState int
  | SessionJoined User
  | SessionLeft uid
  | ParamBroadcast uid params
  | SessionStateMsg SessionState int
  | ConflictDetected conflict
  | Pong

record message =
  payload :: body
  seq :: "int option"
  timestamp :: "instant option"

subsection \<open>services/redis_service.py: the persistence facade\<close>

text \<open>
  The JSON document \<^verbatim>\<open>save_session_state\<close> writes under \<^verbatim>\<open>session:<id>:state\<close>: the
  four fields of the state, \<^verbatim>\<open>seq\<close> and \<^verbatim>\<open>updated_at\<close>.
\<close>

record snapshot =
  snap_mu :: real
  snap_omega :: real
  snap_kappa :: real
  snap_beta :: "real option"
  snap_seq :: int
  snap_updated_at :: instant

record history_event =
  ev_seq :: int
  ev_user_id :: uid
  ev_params :: params
  ev_timestamp :: instant

text \<open>
  The keys of the store. Expiry of a key after its 24 hour time-to-live and failures of
  single Redis commands are not modelled; a store that is not reachable at start-up is
  \<open>redis_enabled = False\<close> in the environment below.
\<close>

record store =
  kv_state :: "sid \<rightharpoonup> snapshot"
  kv_seq :: "sid \<rightharpoonup> int"
  kv_history :: "sid \<Rightarrow> history_event list"
  kv_users :: "sid \<Rightarrow> (uid \<times> User) list"
  kv_user_sessions :: "uid \<Rightarrow> sid list"

subsection \<open>services/auth.py: AuthService\<close>

record TokenData =
  user_id :: uid
  username :: string
  email :: "string option"
  is_anonymous :: bool
  exp_at :: instant

text \<open>The configuration read from the process environment by \<^verbatim>\<open>AuthService.__init__\<close>.\<close>

record AuthService =
  secret_key :: string
  algorithm :: string
  expiration_hours :: int

text \<open>The claim set \<^verbatim>\<open>create_token\<close> hands to the JWT library.\<close>

record jwt_payload =
  claim_user_id :: uid
  claim_username :: string
  claim_email :: "string option"
  claim_is_anonymous :: bool
  claim_exp :: instant
  claim_iat :: instant

text \<open>
  The JWT library is not part of the repository. Its two entry points are parameters:
  \<^verbatim>\<open>jwt.encode(payload, key, algorithm)\<close> and \<^verbatim>\<open>jwt.decode(token, key, algorithms)\<close>, the
  latter also reading the clock. The two exceptions \<^verbatim>\<open>verify_token\<close> catches are the
  error values of decoding.
\<close>

datatype jwt_error = ExpiredSignatureError | InvalidTokenError

type_synonym jwt_encode = "jwt_payload \<Rightarrow> string \<Rightarrow> string \<Rightarrow> string"
type_synonym jwt_decode = "string \<Rightarrow> string \<Rightarrow> string list \<Rightarrow> instant \<Rightarrow> jwt_error + jwt_payload"

text \<open>The dictionary \<^verbatim>\<open>payload\<close> built by \<^verbatim>\<open>create_token\<close>.\<close>

definition token_claims ::
  "AuthService \<Rightarrow> instant \<Rightarrow> uid \<Rightarrow> string \<Rightarrow> string option \<Rightarrow> bool \<Rightarrow> jwt_payload" where
  "token_claims svc now u name em anon =
     (let expiration = now + expiration_hours svc * 3600000000 in
      \<lparr>claim_user_id = u, claim_username = name, claim_email = em,
       claim_is_anonymous = anon, claim_exp = expiration, claim_iat = now\<rparr>)"

definition create_token ::
  "jwt_encode \<Rightarrow> AuthService \<Rightarrow> instant \<Rightarrow> uid \<Rightarrow> string \<Rightarrow> string option \<Rightarrow> bool \<Rightarrow> string" where
  "create_token enc svc now u name em anon =
     enc (token_claims svc now u name em anon) (secret_key svc) (algorithm svc)"

definition verify_token :: "jwt_decode \<Rightarrow> AuthService \<Rightarrow> instant \<Rightarrow> string \<Rightarrow> TokenData option" where
  "verify_token dec svc now token =
     (case dec token (secret_key svc) [algorithm svc] now of
        Inr p \<Rightarrow>
          Some \<lparr>user_id = claim_user_id p, username = claim_username p, email = claim_email p,
                is_anonymous = claim_is_anonymous p, exp_at = claim_exp p\<rparr>
      | Inl ExpiredSignatureError \<Rightarrow> None
      | Inl InvalidTokenError \<Rightarrow> None)"

text \<open>
  What the theorem about tokens assumes of the library, for a key, an algorithm and a
  claim set \<open>p\<close>: decoding the token it has encoded from \<open>p\<close> either reports it
  expired, by the library's own reading \<open>expired\<close> of the expiry claim against the
  clock, or returns the claim set, the two time claims in their serialised form
  \<open>ser\<close>.
\<close>

definition jwt_roundtrip ::
  "jwt_encode \<Rightarrow> jwt_decode \<Rightarrow> (jwt_payload \<Rightarrow> instant \<Rightarrow> bool) \<Rightarrow> (instant \<Rightarrow> instant)
     \<Rightarrow> string \<Rightarrow> string \<Rightarrow> jwt_payload \<Rightarrow> bool" where
  "jwt_roundtrip enc dec expired ser key alg p \<longleftrightarrow>
     (\<forall>t. dec (enc p key alg) key [alg] t =
            (if expired p t then Inl ExpiredSignatureError
             else Inr (p\<lparr>claim_exp := ser (claim_exp p), claim_iat := ser (claim_iat p)\<rparr>)))"

subsection \<open>The environment and the state of the process\<close>

text \<open>
  What the code reads but never writes: the attributes inherited by the state object,
  whether the store was reachable at start-up, which sockets refuse a send, the decoder
  of the JWT library and the configuration of the token service.
\<close>

record env =
  inherited_attr :: "string \<Rightarrow> bool"
  redis_enabled :: bool
  send_fails :: "ws \<Rightarrow> bool"
  jwt_decode_fn :: jwt_decode
  auth_service :: AuthService

text \<open>
  The six dictionaries of \<^verbatim>\<open>ConnectionManager\<close>, the local variable \<^verbatim>\<open>user_id\<close> of each
  running \<^verbatim>\<open>websocket_endpoint\<close>, the store, and the frames each socket has been sent.
\<close>

record world =
  active_connections :: "sid \<rightharpoonup> ws list"
  session_seq :: "sid \<rightharpoonup> int"
  session_state :: "sid \<rightharpoonup> SessionState"
  session_users :: "sid \<rightharpoonup> (uid \<times> User) list"
  ws_to_user :: "ws \<rightharpoonup> uid"
  last_update_time :: "sid \<rightharpoonup> (string \<times> instant) list"
  endpoint_user_id :: "ws \<rightharpoonup> uid"
  redis :: store
  outbox :: "ws \<Rightarrow> message list"

type_synonym outcome = "error option \<times> world"

definition empty_store :: store where
  "empty_store = \<lparr>kv_state = Map.empty, kv_seq = Map.empty, kv_history = (\<lambda>_. []),
     kv_users = (\<lambda>_. []), kv_user_sessions = (\<lambda>_. [])\<rparr>"

text \<open>\<^verbatim>\<open>ConnectionManager.__init__\<close>, with an empty store and nothing sent yet.\<close>

definition init_world :: world where
  "init_world = \<lparr>active_connections = Map.empty, session_seq = Map.empty,
     session_state = Map.empty, session_users = Map.empty, ws_to_user = Map.empty,
     last_update_time = Map.empty, endpoint_user_id = Map.empty, redis = empty_store,
     outbox = (\<lambda>_. [])\<rparr>"

subsection \<open>services/redis_service.py: the operations the manager calls\<close>

definition save_session_state :: "env \<Rightarrow> store \<Rightarrow> sid \<Rightarrow> SessionState \<Rightarrow> int \<Rightarrow> instant \<Rightarrow> store" where
  "save_session_state e r s st n now =
     (if \<not> redis_enabled e then r
      else r\<lparr>kv_state := (kv_state r)(s \<mapsto>
                 \<lparr>snap_mu = mu st, snap_omega = omega st, snap_kappa = kappa st,
                  snap_beta = beta st, snap_seq = n, snap_updated_at = now\<rparr>),
             kv_seq := (kv_seq r)(s \<mapsto> n)\<rparr>)"

definition load_session_state :: "env \<Rightarrow> store \<Rightarrow> sid \<Rightarrow> snapshot option" where
  "load_session_state e r s = (if \<not> redis_enabled e then None else kv_state r s)"

text \<open>
  \<^verbatim>\<open>zadd\<close> on the history: a member already present keeps its place, a new one goes
  behind the members whose score is not larger. (Redis orders members of equal score
  by their bytes; here they stay in order of arrival.)
\<close>

definition zadd :: "history_event list \<Rightarrow> history_event \<Rightarrow> history_event list" where
  "zadd h ev =
     (if ev \<in> set h then h
      else takeWhile (\<lambda>x. ev_seq x \<le> ev_seq ev) h @ [ev] @ dropWhile (\<lambda>x. ev_seq x \<le> ev_seq ev) h)"

definition add_to_history :: "env \<Rightarrow> store \<Rightarrow> sid \<Rightarrow> uid \<Rightarrow> params \<Rightarrow> int \<Rightarrow> instant \<Rightarrow> store" where
  "add_to_history e r s u ps n now =
     (if \<not> redis_enabled e then r
      else let h = zadd (kv_history r s)
                     \<lparr>ev_seq = n, ev_user_id = u, ev_params = ps, ev_timestamp = now\<rparr>
           in r\<lparr>kv_history := (kv_history r)(s := drop (length h - 1000) h)\<rparr>)"

definition add_user_to_session :: "env \<Rightarrow> store \<Rightarrow> sid \<Rightarrow> uid \<Rightarrow> User \<Rightarrow> store" where
  "add_user_to_session e r s u user =
     (if \<not> redis_enabled e then r
      else r\<lparr>kv_users := (kv_users r)(s := AList.update u user (kv_users r s)),
             kv_user_sessions := (kv_user_sessions r)
               (u := (if s \<in> set (kv_user_sessions r u) then kv_user_sessions r u
                      else kv_user_sessions r u @ [s]))\<rparr>)"

subsection \<open>api/websocket.py: ConnectionManager\<close>

text \<open>\<^verbatim>\<open>self.active_connections[session_id].add(websocket)\<close>\<close>

definition add_connection :: "world \<Rightarrow> ws \<Rightarrow> sid \<Rightarrow> outcome" where
  "add_connection w c s =
     (case active_connections w s of
        None \<Rightarrow> (Some KeyError, w)
      | Some conns \<Rightarrow>
          (None, w\<lparr>active_connections := (active_connections w)
                     (s \<mapsto> (if c \<in> set conns then conns else conns @ [c]))\<rparr>))"

definition connect :: "env \<Rightarrow> world \<Rightarrow> ws \<Rightarrow> sid \<Rightarrow> outcome" where
  "connect e w c s =
     (case active_connections w s of
        Some conns \<Rightarrow> add_connection w c s
      | None \<Rightarrow>
          (let w1 = w\<lparr>active_connections := (active_connections w)(s \<mapsto> [])\<rparr> in
           case load_session_state e (redis w1) s of
             Some restored_state \<Rightarrow>
               (let w2 = w1\<lparr>session_seq := (session_seq w1)(s \<mapsto> snap_seq restored_state)\<rparr> in
                case SessionState_init (snap_mu restored_state) (snap_omega restored_state)
                       (snap_kappa restored_state) (snap_beta restored_state) of
                  Inl err \<Rightarrow> (Some err, w2)
                | Inr st \<Rightarrow>
                    add_connection
                      (w2\<lparr>session_state := (session_state w2)(s \<mapsto> st),
                          session_users := (session_users w2)(s \<mapsto> []),
                          last_update_time := (last_update_time w2)(s \<mapsto> [])\<rparr>) c s)
           | None \<Rightarrow>
               add_connection
                 (w1\<lparr>session_seq := (session_seq w1)(s \<mapsto> 0),
                     session_state := (session_state w1)(s \<mapsto> SessionState_default),
                     session_users := (session_users w1)(s \<mapsto> []),
                     last_update_time := (last_update_time w1)(s \<mapsto> [])\<rparr>) c s))"

text \<open>The five \<^verbatim>\<open>del\<close> statements that clean up an empty session; each raises on a missing key.\<close>

definition cleanup :: "world \<Rightarrow> sid \<Rightarrow> outcome" where
  "cleanup w s =
     (let w1 = w\<lparr>active_connections := (active_connections w)(s := None)\<rparr> in
      case session_seq w1 s of None \<Rightarrow> (Some KeyError, w1) | Some _ \<Rightarrow>
     (let w2 = w1\<lparr>session_seq := (session_seq w1)(s := None)\<rparr> in
      case session_state w2 s of None \<Rightarrow> (Some KeyError, w2) | Some _ \<Rightarrow>
     (let w3 = w2\<lparr>session_state := (session_state w2)(s := None)\<rparr> in
      case session_users w3 s of None \<Rightarrow> (Some KeyError, w3) | Some _ \<Rightarrow>
     (let w4 = w3\<lparr>session_users := (session_users w3)(s := None)\<rparr> in
      case last_update_time w4 s of None \<Rightarrow> (Some KeyError, w4) | Some _ \<Rightarrow>
        (None, w4\<lparr>last_update_time := (last_update_time w4)(s := None)\<rparr>)))))"

text \<open>The removal of the user mapping inside \<^verbatim>\<open>disconnect\<close>.\<close>

definition remove_user_mapping :: "world \<Rightarrow> ws \<Rightarrow> sid \<Rightarrow> world" where
  "remove_user_mapping w c s =
     (case ws_to_user w c of
        None \<Rightarrow> w
      | Some u \<Rightarrow>
          (let w1 = w\<lparr>ws_to_user := (ws_to_user w)(c := None)\<rparr> in
           case session_users w1 s of
             None \<Rightarrow> w1
           | Some us \<Rightarrow>
               if u \<in> fst ` set us
               then w1\<lparr>session_users := (session_users w1)(s \<mapsto> AList.delete u us)\<rparr>
               else w1))"

definition disconnect :: "world \<Rightarrow> ws \<Rightarrow> sid \<Rightarrow> outcome" where
  "disconnect w c s =
     (case active_connections w s of
        None \<Rightarrow> (None, w)
      | Some conns \<Rightarrow>
          (let w1 = w\<lparr>active_connections := (active_connections w)(s \<mapsto> removeAll c conns)\<rparr>;
               w2 = remove_user_mapping w1 c s
           in if removeAll c conns = [] then cleanup w2 s else (None, w2)))"

text \<open>\<^verbatim>\<open>await ws.send_json(message)\<close>: delivers the frame or raises.\<close>

definition send_json :: "env \<Rightarrow> world \<Rightarrow> ws \<Rightarrow> message \<Rightarrow> outcome" where
  "send_json e w c msg =
     (if send_fails e c then (Some SendError, w)
      else (None, w\<lparr>outbox := (outbox w)(c := outbox w c @ [msg])\<rparr>))"

text \<open>
  The loop over \<^verbatim>\<open>params.items()\<close> inside \<^verbatim>\<open>broadcast\<close>: every key the state object has as
  an attribute is assigned and its update time is stamped.
\<close>

fun apply_params :: "env \<Rightarrow> world \<Rightarrow> sid \<Rightarrow> instant \<Rightarrow> params \<Rightarrow> outcome" where
  "apply_params e w s now [] = (None, w)"
| "apply_params e w s now ((key, v) # rest) =
     (case session_state w s of
        None \<Rightarrow> (Some KeyError, w)
      | Some st \<Rightarrow>
          if hasattr_SessionState (inherited_attr e) key then
            (case setattr_SessionState st key v of
               Inl err \<Rightarrow> (Some err, w)
             | Inr st' \<Rightarrow>
                 (let w1 = w\<lparr>session_state := (session_state w)(s \<mapsto> st')\<rparr> in
                  case last_update_time w1 s of
                    None \<Rightarrow> (Some KeyError, w1)
                  | Some lut \<Rightarrow>
                      apply_params e
                        (w1\<lparr>last_update_time := (last_update_time w1)(s \<mapsto> AList.update key now lut)\<rparr>)
                        s now rest))
          else apply_params e w s now rest)"

text \<open>
  The branch of \<^verbatim>\<open>broadcast\<close> taken for a \<^verbatim>\<open>param:broadcast\<close> message: apply the
  parameters, recompute \<open>beta\<close>, save the snapshot, append to the history. \<open>n\<close> is the
  sequence number already incremented.
\<close>

definition update_state :: "env \<Rightarrow> world \<Rightarrow> sid \<Rightarrow> body \<Rightarrow> int \<Rightarrow> instant \<Rightarrow> outcome" where
  "update_state e w s b n now =
     (case b of
        ParamBroadcast u ps \<Rightarrow>
          (case apply_params e w s now ps of
             (Some err, w1) \<Rightarrow> (Some err, w1)
           | (None, w1) \<Rightarrow>
               (case session_state w1 s of
                  None \<Rightarrow> (Some KeyError, w1)
                | Some st \<Rightarrow>
                    (let st' = compute_beta st 10.8;
                         w2 = w1\<lparr>session_state := (session_state w1)(s \<mapsto> st')\<rparr>
                     in (None, w2\<lparr>redis := add_to_history e
                                   (save_session_state e (redis w2) s st' n now) s u ps n now\<rparr>))))
      | _ \<Rightarrow> (None, w))"

text \<open>
  The send loop of \<^verbatim>\<open>broadcast\<close>: skips \<open>exclude\<close>, collects the sockets whose send
  raised.
\<close>

fun fan_out :: "env \<Rightarrow> world \<Rightarrow> message \<Rightarrow> ws option \<Rightarrow> ws list \<Rightarrow> world \<times> ws list" where
  "fan_out e w msg exclude [] = (w, [])"
| "fan_out e w msg exclude (c # cs) =
     (if Some c = exclude then fan_out e w msg exclude cs
      else if send_fails e c
      then (case fan_out e w msg exclude cs of (w', dead_sockets) \<Rightarrow> (w', c # dead_sockets))
      else fan_out e (w\<lparr>outbox := (outbox w)(c := outbox w c @ [msg])\<rparr>) msg exclude cs)"

fun disconnect_all :: "world \<Rightarrow> ws list \<Rightarrow> sid \<Rightarrow> outcome" where
  "disconnect_all w [] s = (None, w)"
| "disconnect_all w (c # cs) s =
     (case disconnect w c s of
        (Some err, w') \<Rightarrow> (Some err, w')
      | (None, w') \<Rightarrow> disconnect_all w' cs s)"

definition broadcast :: "env \<Rightarrow> world \<Rightarrow> sid \<Rightarrow> body \<Rightarrow> ws option \<Rightarrow> instant \<Rightarrow> outcome" where
  "broadcast e w s b exclude now =
     (case active_connections w s of
        None \<Rightarrow> (None, w)
      | Some _ \<Rightarrow>
          (case session_seq w s of
             None \<Rightarrow> (Some KeyError, w)
           | Some n \<Rightarrow>
               (let w1 = w\<lparr>session_seq := (session_seq w)(s \<mapsto> n + 1)\<rparr>;
                    msg = \<lparr>payload = b, seq = Some (n + 1), timestamp = Some now\<rparr>
                in case update_state e w1 s b (n + 1) now of
                     (Some err, w2) \<Rightarrow> (Some err, w2)
                   | (None, w2) \<Rightarrow>
                       (case active_connections w2 s of
                          None \<Rightarrow> (Some KeyError, w2)
                        | Some conns \<Rightarrow>
                            (case fan_out e w2 msg exclude conns of
                               (w3, dead_sockets) \<Rightarrow> disconnect_all w3 dead_sockets s)))))"

definition get_session_state :: "world \<Rightarrow> sid \<Rightarrow> SessionState \<times> int" where
  "get_session_state w s =
     (case session_state w s of
        None \<Rightarrow> (SessionState_default, 0)
      | Some st \<Rightarrow> (st, (case session_seq w s of None \<Rightarrow> 0 | Some n \<Rightarrow> n)))"

definition get_session_users :: "world \<Rightarrow> sid \<Rightarrow> User list" where
  "get_session_users w s = (case session_users w s of None \<Rightarrow> [] | Some us \<Rightarrow> map snd us)"

definition add_user :: "env \<Rightarrow> world \<Rightarrow> ws \<Rightarrow> sid \<Rightarrow> User \<Rightarrow> world" where
  "add_user e w c s user =
     (let us = (case session_users w s of None \<Rightarrow> [] | Some us \<Rightarrow> us) in
      w\<lparr>session_users := (session_users w)(s \<mapsto> AList.update (User_id user) user us),
        ws_to_user := (ws_to_user w)(c \<mapsto> User_id user),
        redis := add_user_to_session e (redis w) s (User_id user) user\<rparr>)"

text \<open>
  The descriptor \<^verbatim>\<open>detect_conflict\<close> returns; \<open>other\<close> is the first entry of the roster
  whose key differs from the proposer's id.
\<close>

definition conflict_of :: "string \<Rightarrow> real \<Rightarrow> real \<Rightarrow> (uid \<times> User) option \<Rightarrow> conflict" where
  "conflict_of p new_value current_value other =
     \<lparr>param = p, yourValue = new_value, theirValue = current_value,
      theirUserId = (case other of None \<Rightarrow> ''unknown'' | Some (_, user) \<Rightarrow> User_id user),
      theirUserName = (case other of None \<Rightarrow> ''Another user'' | Some (_, user) \<Rightarrow> User_name user)\<rparr>"

definition detect_conflict ::
  "env \<Rightarrow> world \<Rightarrow> instant \<Rightarrow> sid \<Rightarrow> string \<Rightarrow> real \<Rightarrow> uid \<Rightarrow> error + conflict option" where
  "detect_conflict e w now s p new_value u =
     (case last_update_time w s of
        None \<Rightarrow> Inr None
      | Some lut \<Rightarrow>
          (case map_of lut p of
             None \<Rightarrow> Inr None
           | Some last_update \<Rightarrow>
               if now - last_update < 500000 then
                 (case session_state w s of
                    None \<Rightarrow> Inl KeyError
                  | Some st \<Rightarrow>
                      (case getattr_SessionState (inherited_attr e) st p of
                         PyNone \<Rightarrow> Inr None
                       | OtherObject \<Rightarrow> Inl TypeError
                       | Float current_value \<Rightarrow>
                           if \<bar>current_value - new_value\<bar> > 0.001 then
                             (case session_users w s of
                                None \<Rightarrow> Inl KeyError
                              | Some us \<Rightarrow>
                                  Inr (Some (conflict_of p new_value current_value
                                               (find (\<lambda>(k, user). k \<noteq> u) us))))
                           else Inr None))
               else Inr None))"

subsection \<open>api/websocket.py: websocket_endpoint\<close>

text \<open>
  The frames a client sends. An \<^verbatim>\<open>auth\<close> frame carries the optional token and the
  optional colour; a \<^verbatim>\<open>param:update\<close> frame its payload, a number per key.
\<close>

datatype frame =
    Auth "string option" "string option"
  | ParamUpdate params
  | ConflictResolved string real
  | Resync int
  | Ping
  | UnknownFrame

text \<open>
  The test \<^verbatim>\<open>if not user_id\<close> (and \<^verbatim>\<open>if user_id\<close>) on the local variable: it passes with
  the user id when the variable holds a non-empty string, and fails on \<^verbatim>\<open>None\<close> and on
  the empty string.
\<close>

definition authenticated :: "uid option \<Rightarrow> uid option" where
  "authenticated u = (case u of None \<Rightarrow> None | Some x \<Rightarrow> if x = [] then None else Some x)"

text \<open>The start of the endpoint: \<^verbatim>\<open>manager.connect\<close>, then \<^verbatim>\<open>user_id = None\<close>.\<close>

definition endpoint_open :: "env \<Rightarrow> world \<Rightarrow> ws \<Rightarrow> sid \<Rightarrow> outcome" where
  "endpoint_open e w c s =
     (case connect e w c s of
        (Some err, w') \<Rightarrow> (Some err, w')
      | (None, w') \<Rightarrow> (None, w'\<lparr>endpoint_user_id := (endpoint_user_id w')(c := None)\<rparr>))"

definition handle_auth :: "env \<Rightarrow> world \<Rightarrow> ws \<Rightarrow> sid \<Rightarrow> instant \<Rightarrow> string option \<Rightarrow> string option \<Rightarrow> outcome" where
  "handle_auth e w c s now token color =
     (let token_data =
            (case token of
               None \<Rightarrow> None
             | Some tok \<Rightarrow> if tok = [] then None
                           else verify_token (jwt_decode_fn e) (auth_service e) now tok)
      in case token_data of
           None \<Rightarrow>
             send_json e w c \<lparr>payload = AuthFailed ''Invalid or missing authentication token'',
                              seq = None, timestamp = None\<rparr>
         | Some td \<Rightarrow>
             (let w1 = w\<lparr>endpoint_user_id := (endpoint_user_id w)(c \<mapsto> user_id td)\<rparr>;
                  user = \<lparr>User_id = user_id td, User_name = username td, User_avatar = None,
                          User_color = Some (case color of
                                               Some col \<Rightarrow> col
                                             | None \<Rightarrow> if is_anonymous td then ''#8b5cf6'' else ''#06b6d4'')\<rparr>;
                  w2 = add_user e w1 c s user;
                  current_state = get_session_state w2 s
              in case send_json e w2 c
                        \<lparr>payload = AuthSuccess s (user_id td) (get_session_users w2 s)
                                     (fst current_state) (snd current_state),
                         seq = None, timestamp = None\<rparr> of
                   (Some err, w3) \<Rightarrow> (Some err, w3)
                 | (None, w3) \<Rightarrow> broadcast e w3 s (SessionJoined user) (Some c) now))"

text \<open>The loop that collects the conflicts of a proposal, one call of the detector per key.\<close>

fun collect_conflicts :: "env \<Rightarrow> world \<Rightarrow> instant \<Rightarrow> sid \<Rightarrow> uid \<Rightarrow> params \<Rightarrow> error + conflict list" where
  "collect_conflicts e w now s u [] = Inr []"
| "collect_conflicts e w now s u ((p, v) # rest) =
     (case detect_conflict e w now s p v u of
        Inl err \<Rightarrow> Inl err
      | Inr found \<Rightarrow>
          (case collect_conflicts e w now s u rest of
             Inl err \<Rightarrow> Inl err
           | Inr cs \<Rightarrow> Inr (case found of None \<Rightarrow> cs | Some c \<Rightarrow> c # cs)))"

text \<open>The loop that sends one \<^verbatim>\<open>conflict:detected\<close> frame per descriptor to the proposer.\<close>

fun send_conflicts :: "env \<Rightarrow> world \<Rightarrow> ws \<Rightarrow> conflict list \<Rightarrow> outcome" where
  "send_conflicts e w c [] = (None, w)"
| "send_conflicts e w c (x # xs) =
     (case send_json e w c \<lparr>payload = ConflictDetected x, seq = None, timestamp = None\<rparr> of
        (Some err, w') \<Rightarrow> (Some err, w')
      | (None, w') \<Rightarrow> send_conflicts e w' c xs)"

definition handle_param_update :: "env \<Rightarrow> world \<Rightarrow> ws \<Rightarrow> sid \<Rightarrow> instant \<Rightarrow> params \<Rightarrow> outcome" where
  "handle_param_update e w c s now ps =
     (case authenticated (endpoint_user_id w c) of
        None \<Rightarrow> (None, w)
      | Some u \<Rightarrow>
          (case collect_conflicts e w now s u ps of
             Inl err \<Rightarrow> (Some err, w)
           | Inr conflicts \<Rightarrow>
               if conflicts \<noteq> [] then send_conflicts e w c conflicts
               else broadcast e w s (ParamBroadcast u ps) (Some c) now))"

definition handle_conflict_resolved ::
  "env \<Rightarrow> world \<Rightarrow> ws \<Rightarrow> sid \<Rightarrow> instant \<Rightarrow> string \<Rightarrow> real \<Rightarrow> outcome" where
  "handle_conflict_resolved e w c s now p resolvedValue =
     (case authenticated (endpoint_user_id w c) of
        None \<Rightarrow> (None, w)
      | Some u \<Rightarrow> broadcast e w s (ParamBroadcast u [(p, resolvedValue)]) (Some c) now)"

definition handle_resync :: "env \<Rightarrow> world \<Rightarrow> ws \<Rightarrow> sid \<Rightarrow> int \<Rightarrow> outcome" where
  "handle_resync e w c s last_seen_seq =
     (let current_state = get_session_state w s in
      send_json e w c \<lparr>payload = SessionStateMsg (fst current_state) (snd current_state),
                       seq = None, timestamp = None\<rparr>)"

text \<open>One turn of the \<^verbatim>\<open>while True\<close> loop, for a frame that has been received.\<close>

fun handle_frame :: "env \<Rightarrow> world \<Rightarrow> ws \<Rightarrow> sid \<Rightarrow> instant \<Rightarrow> frame \<Rightarrow> outcome" where
  "handle_frame e w c s now (Auth token color) = handle_auth e w c s now token color"
| "handle_frame e w c s now (ParamUpdate ps) = handle_param_update e w c s now ps"
| "handle_frame e w c s now (ConflictResolved p v) = handle_conflict_resolved e w c s now p v"
| "handle_frame e w c s now (Resync n) = handle_resync e w c s n"
| "handle_frame e w c s now Ping =
     send_json e w c \<lparr>payload = Pong, seq = None, timestamp = None\<rparr>"
| "handle_frame e w c s now UnknownFrame = (None, w)"

text \<open>
  The \<^verbatim>\<open>finally\<close> block, run when the socket disconnects or a handler raises:
  \<^verbatim>\<open>manager.disconnect\<close>, then a \<^verbatim>\<open>session:left\<close> broadcast if the connection had
  authenticated.
\<close>

definition endpoint_finally :: "env \<Rightarrow> world \<Rightarrow> ws \<Rightarrow> sid \<Rightarrow> instant \<Rightarrow> outcome" where
  "endpoint_finally e w c s now =
     (case disconnect w c s of
        (Some err, w1) \<Rightarrow> (Some err, w1)
      | (None, w1) \<Rightarrow>
          (case authenticated (endpoint_user_id w1 c) of
             None \<Rightarrow> (None, w1)
           | Some u \<Rightarrow> broadcast e w1 s (SessionLeft u) None now))"

text \<open>
  What a connection does, as seen by the process: it opens, it delivers a frame, or it
  closes. A frame whose handler raises runs the \<^verbatim>\<open>finally\<close> block at once.
\<close>

datatype event = Open ws sid | Frame ws sid frame | Close ws sid

fun step :: "env \<Rightarrow> world \<Rightarrow> instant \<times> event \<Rightarrow> world" where
  "step e w (now, Open c s) = snd (endpoint_open e w c s)"
| "step e w (now, Frame c s f) =
     (case handle_frame e w c s now f of
        (None, w') \<Rightarrow> w'
      | (Some err, w') \<Rightarrow> snd (endpoint_finally e w' c s now))"
| "step e w (now, Close c s) = snd (endpoint_finally e w c s now)"

definition run :: "env \<Rightarrow> world \<Rightarrow> (instant \<times> event) list \<Rightarrow> world" where
  "run e w evs = foldl (step e) w evs"

subsection \<open>The representation of socket sets\<close>

text \<open>Every list of sockets in \<open>active_connections\<close> stands for a set: it has no duplicates.\<close>

definition conns_distinct :: "world \<Rightarrow> bool" where
  "conns_distinct w \<longleftrightarrow> (\<forall>s conns. active_connections w s = Some conns \<longrightarrow> distinct conns)"

subsection \<open>What is kept about the derived field\<close>




text \<open>
  A state, and a snapshot in the store, whose \<open>beta\<close> is the number
  \<open>1 - mu - kappa * 10.8\<close>; a state that is either still the one a session is created
  with or has such a \<open>beta\<close>.
\<close>

definition beta_consistent :: "SessionState \<Rightarrow> bool" where
  "beta_consistent st \<longleftrightarrow> beta st = Some (1 - mu st - kappa st * 10.8)"

definition snapshot_consistent :: "snapshot \<Rightarrow> bool" where
  "snapshot_consistent snap \<longleftrightarrow>
     snap_beta snap = Some (1 - snap_mu snap - snap_kappa snap * 10.8)"

definition state_ok :: "SessionState \<Rightarrow> bool" where
  "state_ok st \<longleftrightarrow> st = SessionState_default \<or> beta_consistent st"

text \<open>
  The invariant of the live sessions: every state is as created or has a consistent
  \<open>beta\<close>, every session that has a state has its table of update times, and every
  snapshot in the store is consistent. The last part alone is \<open>store_inv\<close>.
\<close>

definition beta_inv :: "world \<Rightarrow> bool" where
  "beta_inv w \<longleftrightarrow>
     (\<forall>s st. session_state w s = Some st \<longrightarrow> state_ok st) \<and>
     (\<forall>s st. session_state w s = Some st \<longrightarrow> last_update_time w s \<noteq> None) \<and>
     (\<forall>s snap. kv_state (redis w) s = Some snap \<longrightarrow> snapshot_consistent snap)"


subsection \<open>A worked session\<close>

text \<open>
  A concrete environment for the scenarios of the specification: the store is
  reachable, no send fails, the state object inherits no further attribute, and the
  decoder accepts exactly two tokens, one for user \<open>A\<close> and one for the anonymous
  user \<open>B\<close>.
\<close>

definition demo_service :: AuthService where
  "demo_service =
     \<lparr>secret_key = ''dev-secret-key-change-in-production'', algorithm = ''HS256'',
      expiration_hours = 24\<rparr>"

definition demo_decode :: jwt_decode where
  "demo_decode token key algs now =
     (if token = ''token-A'' then
        Inr \<lparr>claim_user_id = ''A'', claim_username = ''Alice'', claim_email = None,
             claim_is_anonymous = False, claim_exp = 86400000000, claim_iat = 0\<rparr>
      else if token = ''token-B'' then
        Inr \<lparr>claim_user_id = ''B'', claim_username = ''Bob'', claim_email = None,
             claim_is_anonymous = True, claim_exp = 86400000000, claim_iat = 0\<rparr>
      else Inl InvalidTokenError)"

definition demo_env :: env where
  "demo_env =
     \<lparr>inherited_attr = (\<lambda>_. False), redis_enabled = True, send_fails = (\<lambda>_. False),
      jwt_decode_fn = demo_decode, auth_service = demo_service\<rparr>"

text \<open>Sockets 1 and 2 open session \<open>s1\<close> and authenticate as \<open>A\<close> and \<open>B\<close>.\<close>

definition joined :: "(instant \<times> event) list" where
  "joined =
     [(0, Open 1 ''s1''), (1, Frame 1 ''s1'' (Auth (Some ''token-A'') None)),
      (2, Open 2 ''s1''), (3, Frame 2 ''s1'' (Auth (Some ''token-B'') None))]"

definition joined_world :: world where
  "joined_world = run demo_env init_world joined"

text \<open>The same session when only \<open>A\<close> has joined.\<close>

definition solo_world :: world where
  "solo_world = run demo_env init_world (take 2 joined)"

text \<open>Then \<open>A\<close> proposes \<open>mu = 0.60\<close>, four microseconds after the start.\<close>

definition updated_world :: world where
  "updated_world = step demo_env joined_world (4, Frame 1 ''s1'' (ParamUpdate [(''mu'', 0.6)]))"

text \<open>
  The session goes on: \<open>B\<close> closes, then \<open>A\<close> closes, which tears the session down,
  and a third socket opens the same session id.
\<close>

definition before_last_leave :: world where
  "before_last_leave = step demo_env updated_world (5, Close 2 ''s1'')"

definition after_last_leave :: world where
  "after_last_leave = step demo_env before_last_leave (6, Close 1 ''s1'')"

definition rejoined_world :: world where
  "rejoined_world = step demo_env after_last_leave (7, Open 3 ''s1'')"

text \<open>
  Then a fourth socket opens the session and authenticates as \<open>B\<close>.
\<close>

definition second_session :: world where
  "second_session =
     run demo_env rejoined_world
       [(8, Open 4 ''s1''), (9, Frame 4 ''s1'' (Auth (Some ''token-B'') None))]"

text \<open>
  A variant of the session: instead, \<open>A\<close> proposes \<open>mu = 0.80\<close>, which is above the
  declared upper bound 0.7; then both sockets close.
\<close>

definition out_of_bounds_world :: world where
  "out_of_bounds_world = step demo_env joined_world (4, Frame 1 ''s1'' (ParamUpdate [(''mu'', 0.8)]))"

definition out_of_bounds_closed :: world where
  "out_of_bounds_closed =
     run demo_env out_of_bounds_world [(5, Close 2 ''s1''), (6, Close 1 ''s1'')]"

text \<open>
  A toy JWT library for one claim set \<open>p0\<close>: every encoding is the same string, and
  decoding it under the right key and algorithm returns \<open>p0\<close> with its times cut to
  whole seconds, unless the expiry second has been reached.
\<close>

definition toy_ser :: "instant \<Rightarrow> instant" where
  "toy_ser t = (t div 1000000) * 1000000"

definition toy_expired :: "jwt_payload \<Rightarrow> instant \<Rightarrow> bool" where
  "toy_expired p t \<longleftrightarrow> toy_ser (claim_exp p) \<le> t"

definition toy_encode :: jwt_encode where
  "toy_encode p key alg = ''header.claims.signature''"

definition toy_decode :: "jwt_payload \<Rightarrow> string \<Rightarrow> jwt_decode" where
  "toy_decode p0 key0 token key algs now =
     (if token = ''header.claims.signature'' \<and> key = key0 \<and> algs = [''HS256'']
      then (if toy_expired p0 now then Inl ExpiredSignatureError
            else Inr (p0\<lparr>claim_exp := toy_ser (claim_exp p0), claim_iat := toy_ser (claim_iat p0)\<rparr>))
      else Inl InvalidTokenError)"

text \<open>The claim set of a token issued to \<open>A\<close> at time 0 by the demo service.\<close>

definition toy_principal_claims :: jwt_payload where
  "toy_principal_claims = token_claims demo_service 0 ''A'' ''Alice'' (Some ''alice@example.org'') False"

section \<open>Properties\<close>

subsection \<open>What each operation leaves alone\<close>

lemma cleanup_frame:
  "cleanup w s = (r, w') \<Longrightarrow>
     outbox w' = outbox w \<and> redis w' = redis w \<and> active_connections w' s = None \<and>
     endpoint_user_id w' = endpoint_user_id w"
  by (auto simp: cleanup_def Let_def split: option.splits)

lemma remove_user_mapping_frame:
  "outbox (remove_user_mapping w c s) = outbox w \<and>
   redis (remove_user_mapping w c s) = redis w \<and>
   active_connections (remove_user_mapping w c s) = active_connections w \<and>
   endpoint_user_id (remove_user_mapping w c s) = endpoint_user_id w \<and>
   session_seq (remove_user_mapping w c s) = session_seq w \<and>
   session_state (remove_user_mapping w c s) = session_state w"
  by (simp add: remove_user_mapping_def Let_def split: option.splits)

lemma disconnect_frame:
  "disconnect w c s = (r, w') \<Longrightarrow>
     outbox w' = outbox w \<and> redis w' = redis w \<and> endpoint_user_id w' = endpoint_user_id w"
  by (auto simp: disconnect_def Let_def remove_user_mapping_frame
      split: option.splits if_splits dest!: cleanup_frame)

lemma disconnect_last:
  "active_connections w s = Some conns \<Longrightarrow> removeAll c conns = [] \<Longrightarrow>
     disconnect w c s = (r, w') \<Longrightarrow> active_connections w' s = None"
  by (auto simp: disconnect_def Let_def split: option.splits if_splits dest!: cleanup_frame)

lemma broadcast_no_session:
  "active_connections w s = None \<Longrightarrow> broadcast e w s b exclude now = (None, w)"
  by (simp add: broadcast_def)

lemma finally_last:
  assumes "active_connections w s = Some conns" and "removeAll c conns = []"
    and "endpoint_finally e w c s now = (None, w1)"
  shows "disconnect w c s = (None, w1) \<and> active_connections w1 s = None \<and>
         outbox w1 = outbox w \<and> redis w1 = redis w"
proof -
  obtain r w2 where d: "disconnect w c s = (r, w2)"
    by (cases "disconnect w c s")
  from disconnect_last[OF assms(1,2) d] have n: "active_connections w2 s = None" .
  from assms(3) d n have "r = None \<and> w1 = w2"
    by (auto simp: endpoint_finally_def broadcast_no_session split: option.splits)
  with d n disconnect_frame[OF d] show ?thesis
    by simp
qed

subsection \<open>Broadcast to a session that is not live\<close>

text \<open>
  Claim C10. A broadcast for a session id with no live connections does nothing at all:
  it returns the manager, the store and every outbox as they were, so no sequence
  number is consumed and nothing is written or sent. In particular, once the disconnect
  of the last socket of a session has torn the session down, the \<^verbatim>\<open>session:left\<close>
  broadcast of the \<^verbatim>\<open>finally\<close> block leaves the world exactly as the disconnect left it.
\<close>

theorem broadcast_without_live_session_is_noop:
  "(active_connections w s = None \<longrightarrow> broadcast e w s b exclude now = (None, w)) \<and>
   (active_connections w s = Some conns \<and> removeAll c conns = [] \<and>
      disconnect w c s = (None, w') \<longrightarrow>
        active_connections w' s = None \<and> endpoint_finally e w c s now = (None, w'))"
proof (intro conjI impI)
  assume "active_connections w s = None"
  then show "broadcast e w s b exclude now = (None, w)"
    by (rule broadcast_no_session)
next
  assume a: "active_connections w s = Some conns \<and> removeAll c conns = [] \<and>
    disconnect w c s = (None, w')"
  then show n: "active_connections w' s = None"
    using disconnect_last by blast
  from a n show "endpoint_finally e w c s now = (None, w')"
    by (simp add: endpoint_finally_def broadcast_no_session split: option.splits)
qed

theorem broadcast_without_live_session_is_noop_witness:
  "broadcast demo_env init_world ''s1'' (SessionLeft ''A'') None 5 = (None, init_world) \<and>
   active_connections solo_world ''s1'' = Some [1] \<and>
   active_connections (snd (disconnect solo_world 1 ''s1'')) ''s1'' = None \<and>
   endpoint_finally demo_env solo_world 1 ''s1'' 5 = disconnect solo_world 1 ''s1''"
proof -
  have a: "active_connections init_world ''s1'' = None"
    by (simp add: init_world_def)
  have b: "active_connections solo_world ''s1'' = Some [1]"
    by code_simp
  have "fst (disconnect solo_world 1 ''s1'') = None"
    by code_simp
  then have d: "disconnect solo_world 1 ''s1'' = (None, snd (disconnect solo_world 1 ''s1''))"
    by (simp add: prod_eq_iff)
  from a broadcast_without_live_session_is_noop
         [where w = init_world and s = "''s1''" and e = demo_env and b = "SessionLeft ''A''"
            and exclude = None and now = 5]
  have 1: "broadcast demo_env init_world ''s1'' (SessionLeft ''A'') None 5 = (None, init_world)"
    by blast
  from b d broadcast_without_live_session_is_noop
         [where w = solo_world and s = "''s1''" and e = demo_env and conns = "[1]" and c = 1
            and w' = "snd (disconnect solo_world 1 ''s1'')" and now = 5]
  have 2: "active_connections (snd (disconnect solo_world 1 ''s1'')) ''s1'' = None \<and>
           endpoint_finally demo_env solo_world 1 ''s1'' 5 = (None, snd (disconnect solo_world 1 ''s1''))"
    by simp
  from 1 2 b d show ?thesis
    by simp
qed

subsection \<open>Resync\<close>

text \<open>
  Claim C7. A \<^verbatim>\<open>session:resync\<close> request on a live session, from a socket that accepts
  the send, appends one \<^verbatim>\<open>session:state\<close> frame to the outbox of the requesting socket,
  carrying the current parameter record and the current sequence number of the session;
  nothing else in the world changes: the counter, the state, the store and the outboxes
  of all other sockets are as before.
\<close>

theorem resync_sends_state_to_requester_only:
  assumes "\<not> send_fails e c"
    and "session_state w s = Some st"
    and "session_seq w s = Some n"
  shows "handle_frame e w c s now (Resync last_seen_seq) =
           (None, w\<lparr>outbox := (outbox w)
              (c := outbox w c @
                 [\<lparr>payload = SessionStateMsg st n, seq = None, timestamp = None\<rparr>])\<rparr>)"
  using assms by (simp add: handle_resync_def send_json_def get_session_state_def Let_def)

theorem resync_sends_state_to_requester_only_witness:
  "handle_frame demo_env updated_world 2 ''s1'' 9 (Resync 1) =
     (None, updated_world\<lparr>outbox := (outbox updated_world)
        (2 := outbox updated_world 2 @
           [\<lparr>payload = SessionStateMsg
                          \<lparr>mu = 0.6, omega = 0.847, kappa = 0.0207, beta = Some 0.17644\<rparr> 3,
             seq = None, timestamp = None\<rparr>])\<rparr>)"
proof -
  have a: "\<not> send_fails demo_env 2"
    by (simp add: demo_env_def)
  have b: "session_state updated_world ''s1'' =
             Some \<lparr>mu = 0.6, omega = 0.847, kappa = 0.0207, beta = Some 0.17644\<rparr>"
    by code_simp
  have c: "session_seq updated_world ''s1'' = Some 3"
    by code_simp
  show ?thesis
    by (rule resync_sends_state_to_requester_only[OF a b c])
qed

subsection \<open>A conflicted proposal\<close>

lemma send_conflicts_ok:
  "\<not> send_fails e c \<Longrightarrow>
     send_conflicts e w c cs =
       (None, w\<lparr>outbox := (outbox w)
          (c := outbox w c @
             map (\<lambda>x. \<lparr>payload = ConflictDetected x, seq = None, timestamp = None\<rparr>) cs)\<rparr>)"
proof (induction cs arbitrary: w)
  case Nil
  then show ?case
    by simp
next
  case (Cons x xs)
  let ?m = "\<lparr>payload = ConflictDetected x, seq = None, timestamp = None\<rparr>"
  let ?w1 = "w\<lparr>outbox := (outbox w)(c := outbox w c @ [?m])\<rparr>"
  have "send_conflicts e w c (x # xs) = send_conflicts e ?w1 c xs"
    using Cons.prems by (simp add: send_json_def)
  also have "\<dots> = (None, ?w1\<lparr>outbox := (outbox ?w1)
      (c := outbox ?w1 c @
         map (\<lambda>x. \<lparr>payload = ConflictDetected x, seq = None, timestamp = None\<rparr>) xs)\<rparr>)"
    using Cons.prems by (rule Cons.IH)
  also have "\<dots> = (None, w\<lparr>outbox := (outbox w)
      (c := outbox w c @
         map (\<lambda>x. \<lparr>payload = ConflictDetected x, seq = None, timestamp = None\<rparr>) (x # xs))\<rparr>)"
    by simp
  finally show ?case .
qed

lemma collect_conflicts_eq:
  "collect_conflicts e w now s u ps = Inr cs \<Longrightarrow>
     cs = List.map_filter
            (\<lambda>(p, v). case detect_conflict e w now s p v u of Inr r \<Rightarrow> r | Inl _ \<Rightarrow> None) ps"
proof (induction ps arbitrary: cs)
  case Nil
  then show ?case
    by simp
next
  case (Cons a ps)
  then show ?case
    by (cases a) (auto split: sum.splits option.splits)
qed

text \<open>
  Claim C4. When the detector reports a conflict for at least one parameter of a
  proposal from an authenticated socket that accepts sends, the handler returns the
  world unchanged except for the proposer's outbox, to which it appends one
  \<^verbatim>\<open>conflict:detected\<close> frame per conflicting parameter, in the order of the proposal.
  So no other socket receives anything, and the state, the sequence counter, the update
  times and the store stay as they were.
\<close>

theorem conflicted_proposal_is_rejected_whole:
  assumes "authenticated (endpoint_user_id w c) = Some u"
    and "collect_conflicts e w now s u ps = Inr cs"
    and "cs \<noteq> []"
    and "\<not> send_fails e c"
  shows "handle_frame e w c s now (ParamUpdate ps) =
           (None, w\<lparr>outbox := (outbox w)
              (c := outbox w c @
                 map (\<lambda>x. \<lparr>payload = ConflictDetected x, seq = None, timestamp = None\<rparr>) cs)\<rparr>)
         \<and> cs = List.map_filter
                  (\<lambda>(p, v). case detect_conflict e w now s p v u of Inr r \<Rightarrow> r | Inl _ \<Rightarrow> None) ps"
  using assms by (simp add: handle_param_update_def send_conflicts_ok collect_conflicts_eq)

theorem conflicted_proposal_is_rejected_whole_witness:
  "handle_frame demo_env updated_world 2 ''s1'' 100004
       (ParamUpdate [(''omega'', 0.9), (''mu'', 0.65)]) =
     (None, updated_world\<lparr>outbox := (outbox updated_world)
        (2 := outbox updated_world 2 @
           [\<lparr>payload = ConflictDetected
                          \<lparr>param = ''mu'', yourValue = 0.65, theirValue = 0.6,
                           theirUserId = ''A'', theirUserName = ''Alice''\<rparr>,
             seq = None, timestamp = None\<rparr>])\<rparr>)"
proof -
  have a: "authenticated (endpoint_user_id updated_world 2) = Some ''B''"
    by code_simp
  have b: "collect_conflicts demo_env updated_world 100004 ''s1'' ''B''
             [(''omega'', 0.9), (''mu'', 0.65)] =
           Inr [\<lparr>param = ''mu'', yourValue = 0.65, theirValue = 0.6,
                 theirUserId = ''A'', theirUserName = ''Alice''\<rparr>]"
    by code_simp
  have c: "[\<lparr>param = ''mu'', yourValue = 0.65, theirValue = 0.6,
             theirUserId = ''A'', theirUserName = ''Alice''\<rparr>] \<noteq> []"
    by simp
  have d: "\<not> send_fails demo_env 2"
    by (simp add: demo_env_def)
  from conflicted_proposal_is_rejected_whole[OF a b c d] show ?thesis
    by simp
qed

subsection \<open>The steps of a broadcast\<close>

lemma fan_out_frame:
  "fan_out e w msg exclude cs = (w', dead) \<Longrightarrow>
     active_connections w' = active_connections w \<and> session_seq w' = session_seq w \<and>
     session_state w' = session_state w \<and> redis w' = redis w \<and>
     endpoint_user_id w' = endpoint_user_id w"
proof (induction cs arbitrary: w w' dead)
  case Nil
  then show ?case
    by simp
next
  case (Cons c cs)
  show ?case
  proof (cases "Some c = exclude \<or> send_fails e c")
    case True
    with Cons.prems obtain d where "fan_out e w msg exclude cs = (w', d)"
      by (auto split: prod.splits if_splits)
    then show ?thesis
      by (rule Cons.IH)
  next
    case False
    let ?w1 = "w\<lparr>outbox := (outbox w)(c := outbox w c @ [msg])\<rparr>"
    from False Cons.prems have "fan_out e ?w1 msg exclude cs = (w', dead)"
      by simp
    from Cons.IH[OF this] show ?thesis
      by simp
  qed
qed

lemma fan_out_other:
  "fan_out e w msg exclude cs = (w', dead) \<Longrightarrow> w' = w\<lparr>outbox := outbox w'\<rparr>"
proof (induction cs arbitrary: w w' dead)
  case Nil
  then show ?case
    by simp
next
  case (Cons c cs)
  show ?case
  proof (cases "Some c = exclude \<or> send_fails e c")
    case True
    with Cons.prems obtain d where "fan_out e w msg exclude cs = (w', d)"
      by (auto split: prod.splits if_splits)
    then show ?thesis
      by (rule Cons.IH)
  next
    case False
    let ?w1 = "w\<lparr>outbox := (outbox w)(c := outbox w c @ [msg])\<rparr>"
    from False Cons.prems have "fan_out e ?w1 msg exclude cs = (w', dead)"
      by simp
    then have "w' = ?w1\<lparr>outbox := outbox w'\<rparr>"
      by (rule Cons.IH)
    then show ?thesis
      by simp
  qed
qed

lemma fan_out_dead:
  "fan_out e w msg exclude cs = (w', dead) \<Longrightarrow>
     dead = filter (\<lambda>c. Some c \<noteq> exclude \<and> send_fails e c) cs"
  by (induction cs arbitrary: w w' dead) (auto split: if_splits prod.splits)

lemma fan_out_outbox:
  "fan_out e w msg exclude cs = (w', dead) \<Longrightarrow> distinct cs \<Longrightarrow>
     outbox w' c =
       (if c \<in> set cs \<and> Some c \<noteq> exclude \<and> \<not> send_fails e c then outbox w c @ [msg]
        else outbox w c)"
proof (induction cs arbitrary: w w' dead)
  case Nil
  then show ?case
    by simp
next
  case (Cons a cs)
  then show ?case
    by (auto split: if_splits prod.splits)
qed

lemma apply_params_frame:
  "apply_params e w s now ps = (r, w') \<Longrightarrow>
     active_connections w' = active_connections w \<and> session_seq w' = session_seq w \<and>
     outbox w' = outbox w \<and> redis w' = redis w \<and> session_users w' = session_users w \<and>
     ws_to_user w' = ws_to_user w \<and> endpoint_user_id w' = endpoint_user_id w"
proof (induction e w s now ps rule: apply_params.induct)
  case (1 e w s now)
  then show ?case
    by simp
next
  case (2 e w s now key v rest)
  show ?case
  proof (cases "session_state w s")
    case None
    with "2.prems" show ?thesis
      by simp
  next
    case (Some st)
    show ?thesis
    proof (cases "hasattr_SessionState (inherited_attr e) key")
      case False
      with Some "2.prems" "2.IH"(2)[OF Some False] show ?thesis
        by simp
    next
      case True
      show ?thesis
      proof (cases "setattr_SessionState st key v")
        case (Inl err)
        with Some True "2.prems" show ?thesis
          by simp
      next
        case (Inr st')
        let ?w1 = "w\<lparr>session_state := (session_state w)(s \<mapsto> st')\<rparr>"
        show ?thesis
        proof (cases "last_update_time ?w1 s")
          case None
          with Some True Inr "2.prems" show ?thesis
            by auto
        next
          case lut: (Some lut)
          let ?w2 = "?w1\<lparr>last_update_time :=
                          (last_update_time ?w1)(s \<mapsto> AList.update key now lut)\<rparr>"
          from Some True Inr lut "2.prems" have "apply_params e ?w2 s now rest = (r, w')"
            by (simp add: Let_def)
          from "2.IH"(1)[OF Some True Inr refl lut this] show ?thesis
            by simp
        qed
      qed
    qed
  qed
qed

lemma update_state_frame:
  "update_state e w s b n now = (r, w') \<Longrightarrow>
     active_connections w' = active_connections w \<and> session_seq w' = session_seq w \<and>
     outbox w' = outbox w \<and> session_users w' = session_users w \<and>
     ws_to_user w' = ws_to_user w \<and> endpoint_user_id w' = endpoint_user_id w"
  by (cases b)
    (auto simp: update_state_def Let_def split: option.splits prod.splits
      dest!: apply_params_frame)





lemma disconnect_all_frame:
  "disconnect_all w cs s = (r, w') \<Longrightarrow>
     outbox w' = outbox w \<and> redis w' = redis w \<and> endpoint_user_id w' = endpoint_user_id w"
proof (induction cs arbitrary: w)
  case Nil
  then show ?case
    by simp
next
  case (Cons c cs)
  obtain r1 w1 where d: "disconnect w c s = (r1, w1)"
    by (cases "disconnect w c s")
  from disconnect_frame[OF d] Cons.prems d Cons.IH[of w1] show ?case
    by (cases r1) auto
qed

lemma disconnect_seq:
  "disconnect w c s = (r, w') \<Longrightarrow>
     session_seq w s = Some m \<or> active_connections w s = None \<Longrightarrow>
     session_seq w' s = Some m \<or> active_connections w' s = None"
  by (auto simp: disconnect_def Let_def remove_user_mapping_frame
      split: option.splits if_splits dest!: cleanup_frame)

lemma disconnect_all_seq:
  "disconnect_all w cs s = (r, w') \<Longrightarrow>
     session_seq w s = Some m \<or> active_connections w s = None \<Longrightarrow>
     session_seq w' s = Some m \<or> active_connections w' s = None"
proof (induction cs arbitrary: w)
  case Nil
  then show ?case
    by simp
next
  case (Cons c cs)
  obtain r1 w1 where d: "disconnect w c s = (r1, w1)"
    by (cases "disconnect w c s")
  from disconnect_seq[OF d Cons.prems(2)] Cons.prems d Cons.IH[of w1] show ?case
    by (cases r1) auto
qed

text \<open>The steps of a broadcast that completes on a live session.\<close>

lemma broadcast_steps:
  assumes "broadcast e w s b exclude now = (None, w')"
    and "active_connections w s = Some conns"
  obtains n w2 w3 dead where
    "session_seq w s = Some n"
    "update_state e (w\<lparr>session_seq := (session_seq w)(s \<mapsto> n + 1)\<rparr>) s b (n + 1) now = (None, w2)"
    "fan_out e w2 \<lparr>payload = b, seq = Some (n + 1), timestamp = Some now\<rparr> exclude conns = (w3, dead)"
    "disconnect_all w3 dead s = (None, w')"
proof -
  from assms obtain n where n: "session_seq w s = Some n"
    by (auto simp: broadcast_def split: option.splits)
  let ?w1 = "w\<lparr>session_seq := (session_seq w)(s \<mapsto> n + 1)\<rparr>"
  let ?msg = "\<lparr>payload = b, seq = Some (n + 1), timestamp = Some now\<rparr>"
  obtain r2 w2 where u: "update_state e ?w1 s b (n + 1) now = (r2, w2)"
    by (cases "update_state e ?w1 s b (n + 1) now")
  from update_state_frame[OF u] assms(2) have c2: "active_connections w2 s = Some conns"
    by simp
  obtain w3 dead where f: "fan_out e w2 ?msg exclude conns = (w3, dead)"
    by (cases "fan_out e w2 ?msg exclude conns")
  from assms n u f c2 have "r2 = None" and "disconnect_all w3 dead s = (None, w')"
    by (auto simp: broadcast_def Let_def split: option.splits)
  with n u f that show ?thesis
    by blast
qed

lemma broadcast_stamps:
  assumes "broadcast e w s b exclude now = (None, w')"
    and "active_connections w s = Some conns"
    and "distinct conns"
    and "session_seq w s = Some n"
  shows "outbox w' c =
           (if c \<in> set conns \<and> Some c \<noteq> exclude \<and> \<not> send_fails e c
            then outbox w c @ [\<lparr>payload = b, seq = Some (n + 1), timestamp = Some now\<rparr>]
            else outbox w c)"
    and "session_seq w' s = Some (n + 1) \<or> active_connections w' s = None"
proof -
  from assms(1,2) obtain m w2 w3 dead where
    m: "session_seq w s = Some m"
    and u: "update_state e (w\<lparr>session_seq := (session_seq w)(s \<mapsto> m + 1)\<rparr>) s b (m + 1) now = (None, w2)"
    and f: "fan_out e w2 \<lparr>payload = b, seq = Some (m + 1), timestamp = Some now\<rparr> exclude conns = (w3, dead)"
    and d: "disconnect_all w3 dead s = (None, w')"
    by (rule broadcast_steps)
  from m assms(4) have mn: "m = n"
    by simp
  from update_state_frame[OF u] have f2: "session_seq w2 s = Some (m + 1)" "outbox w2 = outbox w"
    by simp_all
  from fan_out_frame[OF f] f2 have "session_seq w3 s = Some (m + 1)"
    by simp
  with disconnect_all_seq[OF d] mn
  show "session_seq w' s = Some (n + 1) \<or> active_connections w' s = None"
    by simp
  from fan_out_outbox[OF f assms(3), of c] disconnect_all_frame[OF d] f2 mn
  show "outbox w' c =
           (if c \<in> set conns \<and> Some c \<noteq> exclude \<and> \<not> send_fails e c
            then outbox w c @ [\<lparr>payload = b, seq = Some (n + 1), timestamp = Some now\<rparr>]
            else outbox w c)"
    by simp
qed


lemma connect_fresh:
  "active_connections w s = None \<Longrightarrow>
     session_seq (snd (connect e w c s)) s =
       Some (case load_session_state e (redis w) s of None \<Rightarrow> 0 | Some snap \<Rightarrow> snap_seq snap)"
  by (auto simp: connect_def Let_def add_connection_def split: option.splits sum.splits)



subsection \<open>Socket lists stay duplicate-free\<close>

text \<open>
  No operation of the manager or the endpoint introduces a duplicate, so in every world
  reached from the initial one by any sequence of events the lists are duplicate-free.
\<close>

lemma conns_distinct_cong:
  "active_connections w' = active_connections w \<Longrightarrow> conns_distinct w \<Longrightarrow> conns_distinct w'"
  by (simp add: conns_distinct_def)

lemma add_connection_distinct:
  "add_connection w c s = (r, w') \<Longrightarrow> conns_distinct w \<Longrightarrow> conns_distinct w'"
  by (auto simp: add_connection_def conns_distinct_def split: option.splits if_splits)

lemma connect_distinct:
  "connect e w c s = (r, w') \<Longrightarrow> conns_distinct w \<Longrightarrow> conns_distinct w'"
  by (auto simp: connect_def add_connection_def conns_distinct_def Let_def
      split: option.splits if_splits sum.splits)

lemma cleanup_conns:
  "cleanup w s = (r, w') \<Longrightarrow> active_connections w' = (active_connections w)(s := None)"
  by (auto simp: cleanup_def Let_def split: option.splits)

lemma disconnect_distinct:
  assumes "disconnect w c s = (r, w')" and "conns_distinct w"
  shows "conns_distinct w'"
proof (cases "active_connections w s")
  case None
  with assms show ?thesis
    by (simp add: disconnect_def)
next
  case (Some conns)
  let ?w1 = "w\<lparr>active_connections := (active_connections w)(s \<mapsto> removeAll c conns)\<rparr>"
  let ?w2 = "remove_user_mapping ?w1 c s"
  from assms(2) Some have "distinct conns"
    by (simp add: conns_distinct_def)
  then have "distinct (removeAll c conns)"
    by (rule distinct_removeAll)
  with assms(2) have "conns_distinct ?w1"
    by (simp add: conns_distinct_def)
  then have d2: "conns_distinct ?w2"
    by (simp add: conns_distinct_def remove_user_mapping_frame)
  show ?thesis
  proof (cases "removeAll c conns = []")
    case False
    with assms(1) Some d2 show ?thesis
      by (simp add: disconnect_def Let_def)
  next
    case True
    with assms(1) Some have "cleanup ?w2 s = (r, w')"
      by (simp add: disconnect_def Let_def)
    from cleanup_conns[OF this] d2 show ?thesis
      by (simp add: conns_distinct_def)
  qed
qed

lemma disconnect_all_distinct:
  "disconnect_all w cs s = (r, w') \<Longrightarrow> conns_distinct w \<Longrightarrow> conns_distinct w'"
proof (induction cs arbitrary: w)
  case Nil
  then show ?case
    by simp
next
  case (Cons c cs)
  obtain r1 w1 where d: "disconnect w c s = (r1, w1)"
    by (cases "disconnect w c s")
  from disconnect_distinct[OF d Cons.prems(2)] Cons.prems d Cons.IH[of w1] show ?case
    by (cases r1) auto
qed

lemma broadcast_distinct:
  assumes "broadcast e w s b exclude now = (r, w')" and "conns_distinct w"
  shows "conns_distinct w'"
proof (cases "active_connections w s")
  case None
  with assms show ?thesis
    by (simp add: broadcast_def)
next
  case (Some conns)
  show ?thesis
  proof (cases "session_seq w s")
    case None
    with Some assms show ?thesis
      by (simp add: broadcast_def)
  next
    case n: (Some n)
    let ?w1 = "w\<lparr>session_seq := (session_seq w)(s \<mapsto> n + 1)\<rparr>"
    let ?msg = "\<lparr>payload = b, seq = Some (n + 1), timestamp = Some now\<rparr>"
    obtain r2 w2 where u: "update_state e ?w1 s b (n + 1) now = (r2, w2)"
      by (cases "update_state e ?w1 s b (n + 1) now")
    from update_state_frame[OF u] have a2: "active_connections w2 = active_connections w"
      by simp
    from conns_distinct_cong[OF a2 assms(2)] have d2: "conns_distinct w2" .
    show ?thesis
    proof (cases r2)
      case (Some err)
      with assms(1) \<open>active_connections w s = Some conns\<close> n u d2 show ?thesis
        by (simp add: broadcast_def Let_def)
    next
      case None
      obtain w3 dead where f: "fan_out e w2 ?msg exclude conns = (w3, dead)"
        by (cases "fan_out e w2 ?msg exclude conns")
      from fan_out_frame[OF f] d2 have d3: "conns_distinct w3"
        by (simp add: conns_distinct_def)
      from assms(1) \<open>active_connections w s = Some conns\<close> n u None f a2
      have "disconnect_all w3 dead s = (r, w')"
        by (simp add: broadcast_def Let_def)
      with d3 show ?thesis
        by (rule disconnect_all_distinct[rotated])
    qed
  qed
qed

lemma send_json_conns:
  "send_json e w c msg = (r, w') \<Longrightarrow> active_connections w' = active_connections w"
  by (auto simp: send_json_def split: if_splits)

lemma send_conflicts_conns:
  "send_conflicts e w c cs = (r, w') \<Longrightarrow> active_connections w' = active_connections w"
proof (induction cs arbitrary: w)
  case Nil
  then show ?case
    by simp
next
  case (Cons x xs)
  then show ?case
    by (auto simp: send_json_def split: if_splits)
qed

lemma handle_auth_distinct:
  assumes "handle_auth e w c s now token color = (r, w')" and "conns_distinct w"
  shows "conns_distinct w'"
proof -
  let ?td = "case token of None \<Rightarrow> None
             | Some tok \<Rightarrow> if tok = [] then None
                           else verify_token (jwt_decode_fn e) (auth_service e) now tok"
  show ?thesis
  proof (cases ?td)
    case None
    with assms(1) have "send_json e w c \<lparr>payload = AuthFailed ''Invalid or missing authentication token'',
                              seq = None, timestamp = None\<rparr> = (r, w')"
      by (simp add: handle_auth_def)
    from conns_distinct_cong[OF send_json_conns[OF this] assms(2)] show ?thesis .
  next
    case (Some td)
    let ?user = "\<lparr>User_id = user_id td, User_name = username td, User_avatar = None,
                          User_color = Some (case color of
                                               Some col \<Rightarrow> col
                                             | None \<Rightarrow> if is_anonymous td then ''#8b5cf6'' else ''#06b6d4'')\<rparr>"
    let ?w2 = "add_user e (w\<lparr>endpoint_user_id := (endpoint_user_id w)(c \<mapsto> user_id td)\<rparr>) c s ?user"
    let ?m = "\<lparr>payload = AuthSuccess s (user_id td) (get_session_users ?w2 s)
                                     (fst (get_session_state ?w2 s)) (snd (get_session_state ?w2 s)),
                         seq = None, timestamp = None\<rparr>"
    have d2: "conns_distinct ?w2"
      using assms(2) by (simp add: conns_distinct_def add_user_def Let_def)
    obtain r3 w3 where sj: "send_json e ?w2 c ?m = (r3, w3)"
      by (cases "send_json e ?w2 c ?m")
    from conns_distinct_cong[OF send_json_conns[OF sj] d2] have d3: "conns_distinct w3" .
    show ?thesis
    proof (cases r3)
      case (Some err)
      with assms(1) \<open>?td = Some td\<close> sj d3 show ?thesis
        by (simp add: handle_auth_def Let_def)
    next
      case None
      with assms(1) \<open>?td = Some td\<close> sj
      have "broadcast e w3 s (SessionJoined ?user) (Some c) now = (r, w')"
        by (simp add: handle_auth_def Let_def)
      from broadcast_distinct[OF this d3] show ?thesis .
    qed
  qed
qed

lemma handle_param_update_distinct:
  assumes "handle_param_update e w c s now ps = (r, w')" and "conns_distinct w"
  shows "conns_distinct w'"
proof (cases "authenticated (endpoint_user_id w c)")
  case None
  with assms show ?thesis
    by (simp add: handle_param_update_def)
next
  case (Some u)
  show ?thesis
  proof (cases "collect_conflicts e w now s u ps")
    case (Inl err)
    with Some assms show ?thesis
      by (simp add: handle_param_update_def)
  next
    case (Inr cs)
    show ?thesis
    proof (cases "cs = []")
      case True
      with Some Inr assms(1) have "broadcast e w s (ParamBroadcast u ps) (Some c) now = (r, w')"
        by (simp add: handle_param_update_def)
      from broadcast_distinct[OF this assms(2)] show ?thesis .
    next
      case False
      with Some Inr assms(1) have "send_conflicts e w c cs = (r, w')"
        by (simp add: handle_param_update_def)
      from conns_distinct_cong[OF send_conflicts_conns[OF this] assms(2)] show ?thesis .
    qed
  qed
qed

lemma handle_frame_distinct:
  assumes "handle_frame e w c s now f = (r, w')" and "conns_distinct w"
  shows "conns_distinct w'"
proof (cases f)
  case (Auth token color)
  with assms show ?thesis
    by (simp add: handle_auth_distinct)
next
  case (ParamUpdate ps)
  with assms show ?thesis
    by (simp add: handle_param_update_distinct)
next
  case (ConflictResolved p v)
  with assms show ?thesis
    by (auto simp: handle_conflict_resolved_def split: option.splits dest: broadcast_distinct)
next
  case (Resync n)
  with assms have "send_json e w c \<lparr>payload = SessionStateMsg (fst (get_session_state w s))
        (snd (get_session_state w s)), seq = None, timestamp = None\<rparr> = (r, w')"
    by (simp add: handle_resync_def Let_def)
  from conns_distinct_cong[OF send_json_conns[OF this] assms(2)] show ?thesis .
next
  case Ping
  with assms have "send_json e w c \<lparr>payload = Pong, seq = None, timestamp = None\<rparr> = (r, w')"
    by simp
  from conns_distinct_cong[OF send_json_conns[OF this] assms(2)] show ?thesis .
next
  case UnknownFrame
  with assms show ?thesis
    by simp
qed

lemma endpoint_finally_distinct:
  assumes "endpoint_finally e w c s now = (r, w')" and "conns_distinct w"
  shows "conns_distinct w'"
proof -
  obtain r1 w1 where d: "disconnect w c s = (r1, w1)"
    by (cases "disconnect w c s")
  from disconnect_distinct[OF d assms(2)] have d1: "conns_distinct w1" .
  show ?thesis
  proof (cases r1)
    case (Some err)
    with assms(1) d d1 show ?thesis
      by (simp add: endpoint_finally_def)
  next
    case None
    show ?thesis
    proof (cases "authenticated (endpoint_user_id w1 c)")
      case na: None
      with None assms(1) d d1 show ?thesis
        by (simp add: endpoint_finally_def)
    next
      case (Some u)
      with None assms(1) d have "broadcast e w1 s (SessionLeft u) None now = (r, w')"
        by (simp add: endpoint_finally_def)
      from broadcast_distinct[OF this d1] show ?thesis .
    qed
  qed
qed

lemma step_distinct:
  "conns_distinct w \<Longrightarrow> conns_distinct (step e w ev)"
proof -
  assume d: "conns_distinct w"
  obtain now a where ev: "ev = (now, a)"
    by (cases ev)
  show ?thesis
  proof (cases a)
    case (Open c s)
    obtain r w' where k: "connect e w c s = (r, w')"
      by (cases "connect e w c s")
    from connect_distinct[OF k d] have "conns_distinct w'" .
    then have "conns_distinct (w'\<lparr>endpoint_user_id := (endpoint_user_id w')(c := None)\<rparr>)"
      by (simp add: conns_distinct_def)
    with k \<open>conns_distinct w'\<close> ev Open show ?thesis
      by (cases r) (simp_all add: endpoint_open_def)
  next
    case (Frame c s f)
    obtain r w' where h: "handle_frame e w c s now f = (r, w')"
      by (cases "handle_frame e w c s now f")
    from handle_frame_distinct[OF h d] have d': "conns_distinct w'" .
    obtain r2 w2 where g: "endpoint_finally e w' c s now = (r2, w2)"
      by (cases "endpoint_finally e w' c s now")
    from endpoint_finally_distinct[OF g d'] h g d' ev Frame show ?thesis
      by (cases r) auto
  next
    case (Close c s)
    obtain r2 w2 where g: "endpoint_finally e w c s now = (r2, w2)"
      by (cases "endpoint_finally e w c s now")
    from endpoint_finally_distinct[OF g d] g ev Close show ?thesis
      by simp
  qed
qed

lemma run_distinct:
  "conns_distinct w \<Longrightarrow> conns_distinct (run e w evs)"
  unfolding run_def by (induction evs arbitrary: w) (simp_all add: step_distinct)

lemma init_distinct:
  "conns_distinct init_world"
  by (simp add: conns_distinct_def init_world_def)

lemma reachable_conns_distinct:
  "active_connections (run e init_world evs) s = Some conns \<Longrightarrow> distinct conns"
  using run_distinct[OF init_distinct, of e evs] by (simp add: conns_distinct_def)

subsection \<open>Sequence numbers of broadcasts\<close>

lemma basic_broadcast_scenario:
  "outbox updated_world 2 =
     outbox joined_world 2 @
       [\<lparr>payload = ParamBroadcast ''A'' [(''mu'', 0.6)], seq = Some 3, timestamp = Some 4\<rparr>] \<and>
   outbox updated_world 1 = outbox joined_world 1 \<and>
   session_seq joined_world ''s1'' = Some 2 \<and>
   session_state updated_world ''s1'' =
     Some \<lparr>mu = 0.6, omega = 0.847, kappa = 0.0207, beta = Some 0.17644\<rparr>"
  by code_simp

text \<open>
  Claim C2, as the code has it. In the fresh session \<open>s1\<close> where \<open>A\<close> and \<open>B\<close> have
  joined and authenticated, the two \<^verbatim>\<open>session:joined\<close> broadcasts have taken the
  sequence numbers 1 and 2. When \<open>A\<close> then proposes \<open>mu = 0.60\<close>, the outbox of \<open>B\<close>
  gains exactly one frame, the \<^verbatim>\<open>param:broadcast\<close> with \<open>seq = 3\<close> and payload
  \<open>(A, {mu: 0.60})\<close>, and the outbox of \<open>A\<close> gains nothing. In general, a broadcast that
  completes on a live session stamps its frame with the previous counter plus one,
  delivers that frame once to every socket of the session that is not excluded and
  accepts the send, and to no other socket, and leaves the counter at that value
  (unless every other socket was dead and the session was torn down).
\<close>

theorem param_broadcast_carries_next_seq:
  "(outbox updated_world 2 =
      outbox joined_world 2 @
        [\<lparr>payload = ParamBroadcast ''A'' [(''mu'', 0.6)], seq = Some 3, timestamp = Some 4\<rparr>] \<and>
    outbox updated_world 1 = outbox joined_world 1 \<and>
    session_seq joined_world ''s1'' = Some 2 \<and>
    session_state updated_world ''s1'' =
      Some \<lparr>mu = 0.6, omega = 0.847, kappa = 0.0207, beta = Some 0.17644\<rparr>) \<and>
   (\<forall>e w s b exclude now w' conns n.
      broadcast e w s b exclude now = (None, w') \<and> active_connections w s = Some conns \<and>
      distinct conns \<and> session_seq w s = Some n \<longrightarrow>
        (\<forall>c. outbox w' c =
           (if c \<in> set conns \<and> Some c \<noteq> exclude \<and> \<not> send_fails e c
            then outbox w c @ [\<lparr>payload = b, seq = Some (n + 1), timestamp = Some now\<rparr>]
            else outbox w c)) \<and>
        (session_seq w' s = Some (n + 1) \<or> active_connections w' s = None))"
proof (rule conjI)
  show "outbox updated_world 2 =
      outbox joined_world 2 @
        [\<lparr>payload = ParamBroadcast ''A'' [(''mu'', 0.6)], seq = Some 3, timestamp = Some 4\<rparr>] \<and>
    outbox updated_world 1 = outbox joined_world 1 \<and>
    session_seq joined_world ''s1'' = Some 2 \<and>
    session_state updated_world ''s1'' =
      Some \<lparr>mu = 0.6, omega = 0.847, kappa = 0.0207, beta = Some 0.17644\<rparr>"
    by (rule basic_broadcast_scenario)
next
  show "\<forall>e w s b exclude now w' conns n.
      broadcast e w s b exclude now = (None, w') \<and> active_connections w s = Some conns \<and>
      distinct conns \<and> session_seq w s = Some n \<longrightarrow>
        (\<forall>c. outbox w' c =
           (if c \<in> set conns \<and> Some c \<noteq> exclude \<and> \<not> send_fails e c
            then outbox w c @ [\<lparr>payload = b, seq = Some (n + 1), timestamp = Some now\<rparr>]
            else outbox w c)) \<and>
        (session_seq w' s = Some (n + 1) \<or> active_connections w' s = None)"
  proof (intro allI impI, elim conjE)
    fix e w s b exclude now w' conns n
    assume a: "broadcast e w s b exclude now = (None, w')"
      "active_connections w s = Some conns" "distinct conns" "session_seq w s = Some n"
    from broadcast_stamps[OF a]
    show "(\<forall>c. outbox w' c =
           (if c \<in> set conns \<and> Some c \<noteq> exclude \<and> \<not> send_fails e c
            then outbox w c @ [\<lparr>payload = b, seq = Some (n + 1), timestamp = Some now\<rparr>]
            else outbox w c)) \<and>
        (session_seq w' s = Some (n + 1) \<or> active_connections w' s = None)"
      by blast
  qed
qed

theorem param_broadcast_carries_next_seq_witness:
  "outbox (snd (broadcast demo_env joined_world ''s1'' (ParamBroadcast ''A'' [(''mu'', 0.6)]) (Some 1) 4)) 2 =
     outbox joined_world 2 @
       [\<lparr>payload = ParamBroadcast ''A'' [(''mu'', 0.6)], seq = Some (2 + 1), timestamp = Some 4\<rparr>] \<and>
   outbox (snd (broadcast demo_env joined_world ''s1'' (ParamBroadcast ''A'' [(''mu'', 0.6)]) (Some 1) 4)) 1 =
     outbox joined_world 1"
proof -
  let ?r = "broadcast demo_env joined_world ''s1'' (ParamBroadcast ''A'' [(''mu'', 0.6)]) (Some 1) 4"
  have "fst ?r = None"
    by code_simp
  then have a: "?r = (None, snd ?r)"
    by (simp add: prod_eq_iff)
  have b: "active_connections joined_world ''s1'' = Some [1, 2]"
    by code_simp
  have c: "distinct [1::nat, 2]"
    by simp
  have d: "session_seq joined_world ''s1'' = Some 2"
    by code_simp
  have e: "\<not> send_fails demo_env 2"
    by (simp add: demo_env_def)
  from param_broadcast_carries_next_seq a b c d
  have "\<forall>c. outbox (snd ?r) c =
           (if c \<in> set [1, 2] \<and> Some c \<noteq> Some 1 \<and> \<not> send_fails demo_env c
            then outbox joined_world c @
              [\<lparr>payload = ParamBroadcast ''A'' [(''mu'', 0.6)], seq = Some (2 + 1), timestamp = Some 4\<rparr>]
            else outbox joined_world c)"
    by blast
  with e show ?thesis
    by simp
qed

text \<open>The sequence number \<open>B\<close> receives in the scenario is 3, not 1.\<close>

theorem param_broadcast_seq_counterexample:
  "payload (last (outbox updated_world 2)) = ParamBroadcast ''A'' [(''mu'', 0.6)] \<and>
   seq (last (outbox updated_world 2)) = Some 3 \<and>
   seq (last (outbox updated_world 2)) \<noteq> Some 1"
  by code_simp

subsection \<open>Snapshots in the store are consistent\<close>















subsection \<open>Live states are as created or consistent\<close>

lemma beta_inv_cong:
  "session_state w' = session_state w \<Longrightarrow> last_update_time w' = last_update_time w \<Longrightarrow>
     kv_state (redis w') = kv_state (redis w) \<Longrightarrow> beta_inv w \<Longrightarrow> beta_inv w'"
  by (simp add: beta_inv_def)
























subsection \<open>The derived field\<close>




subsection \<open>Leaving and joining again\<close>

text \<open>
  When the \<^verbatim>\<open>finally\<close> block of the last socket of a session completes, the session is
  no longer live, and the next \<^verbatim>\<open>connect\<close> for the same session id sets the counter to
  the \<open>seq\<close> of the snapshot the store holds, or to 0 when it holds none.
\<close>

lemma rejoin_resumes_persisted_seq:
  assumes "active_connections w s = Some conns"
    and "removeAll c conns = []"
    and "endpoint_finally e w c s now = (None, w')"
  shows "active_connections w' s = None \<and>
         session_seq (snd (connect e w' c' s)) s =
           Some (case load_session_state e (redis w) s of None \<Rightarrow> 0 | Some snap \<Rightarrow> snap_seq snap)"
  using finally_last[OF assms] connect_fresh[of w' s e c'] by simp

lemma rejoin_resumes_persisted_seq_example:
  "session_seq (snd (connect demo_env (snd (endpoint_finally demo_env before_last_leave 1 ''s1'' 6)) 3 ''s1'')) ''s1'' = Some 3 \<and>
   session_seq (snd (connect demo_env (snd (endpoint_finally demo_env solo_world 1 ''s1'' 6)) 3 ''s1'')) ''s1'' = Some 0"
proof -
  let ?f = "endpoint_finally demo_env before_last_leave 1 ''s1'' 6"
  let ?g = "endpoint_finally demo_env solo_world 1 ''s1'' 6"
  have "fst ?f = None"
    by code_simp
  then have f: "?f = (None, snd ?f)"
    by (simp add: prod_eq_iff)
  have "fst ?g = None"
    by code_simp
  then have g: "?g = (None, snd ?g)"
    by (simp add: prod_eq_iff)
  have a: "active_connections before_last_leave ''s1'' = Some [1]"
    by code_simp
  have b: "active_connections solo_world ''s1'' = Some [1]"
    by code_simp
  have r: "removeAll (1::nat) [1] = []"
    by simp
  have la: "load_session_state demo_env (redis before_last_leave) ''s1'' =
      Some \<lparr>snap_mu = 0.6, snap_omega = 0.847, snap_kappa = 0.0207, snap_beta = Some 0.17644,
            snap_seq = 3, snap_updated_at = 4\<rparr>"
    by code_simp
  have lb: "load_session_state demo_env (redis solo_world) ''s1'' = None"
    by code_simp
  from rejoin_resumes_persisted_seq[OF a r f, of 3] la
  have 1: "session_seq (snd (connect demo_env (snd ?f) 3 ''s1'')) ''s1'' = Some 3"
    by simp
  from rejoin_resumes_persisted_seq[OF b r g, of 3] lb
  have 2: "session_seq (snd (connect demo_env (snd ?g) 3 ''s1'')) ''s1'' = Some 0"
    by simp
  from 1 2 show ?thesis
    by simp
qed

text \<open>
  Claim C6 fails on the code. The snapshot is saved only in the \<^verbatim>\<open>param:broadcast\<close>
  branch, while every broadcast increments the counter. In the worked session the
  \<^verbatim>\<open>session:left\<close> of \<open>B\<close> is stamped 4 and sent to socket 1, but the snapshot still
  says 3. After the last socket has left and the session has been torn down, the
  rejoin restores the counter to 3, below the 4 it had reached, and the next broadcast
  of the session, the \<^verbatim>\<open>session:joined\<close> of \<open>B\<close> sent to socket 3, is stamped 4 again.
\<close>

theorem rejoin_reissues_sequence_number:
  "session_seq before_last_leave ''s1'' = Some 4 \<and>
   last (outbox before_last_leave 1) =
     \<lparr>payload = SessionLeft ''B'', seq = Some 4, timestamp = Some 5\<rparr> \<and>
   active_connections after_last_leave ''s1'' = None \<and>
   map_option snap_seq (kv_state (redis after_last_leave) ''s1'') = Some 3 \<and>
   session_seq rejoined_world ''s1'' = Some 3 \<and>
   last (outbox second_session 3) =
     \<lparr>payload = SessionJoined \<lparr>User_id = ''B'', User_name = ''Bob'', User_avatar = None,
                                User_color = Some ''#8b5cf6''\<rparr>,
      seq = Some 4, timestamp = Some 9\<rparr>"
  by code_simp

subsection \<open>Tokens\<close>

text \<open>
  Claim C8. For a JWT library that round-trips the claim set of the principal under the
  configured key and algorithm, verifying a token issued for the principal, at a time
  at which the library does not judge the token expired, returns the principal's
  identity: the same user id, display name, optional email and anonymous flag (and the
  expiry instant as the library serialises it).
\<close>

theorem verify_returns_issued_identity:
  assumes "jwt_roundtrip enc dec expired ser (secret_key svc) (algorithm svc)
             (token_claims svc now u name em anon)"
    and "\<not> expired (token_claims svc now u name em anon) t"
  shows "verify_token dec svc t (create_token enc svc now u name em anon) =
           Some \<lparr>user_id = u, username = name, email = em, is_anonymous = anon,
                 exp_at = ser (now + expiration_hours svc * 3600000000)\<rparr>"
proof -
  let ?p = "token_claims svc now u name em anon"
  from assms have "dec (enc ?p (secret_key svc) (algorithm svc)) (secret_key svc) [algorithm svc] t =
      Inr (?p\<lparr>claim_exp := ser (claim_exp ?p), claim_iat := ser (claim_iat ?p)\<rparr>)"
    by (simp add: jwt_roundtrip_def)
  then show ?thesis
    by (simp add: verify_token_def create_token_def token_claims_def Let_def)
qed

theorem verify_returns_issued_identity_witness:
  "verify_token (toy_decode toy_principal_claims (secret_key demo_service)) demo_service 1000
     (create_token toy_encode demo_service 0 ''A'' ''Alice'' (Some ''alice@example.org'') False) =
   Some \<lparr>user_id = ''A'', username = ''Alice'', email = Some ''alice@example.org'',
         is_anonymous = False, exp_at = 86400000000\<rparr>"
proof -
  have a: "jwt_roundtrip toy_encode (toy_decode toy_principal_claims (secret_key demo_service))
             toy_expired toy_ser (secret_key demo_service) (algorithm demo_service)
             (token_claims demo_service 0 ''A'' ''Alice'' (Some ''alice@example.org'') False)"
    by (simp add: jwt_roundtrip_def toy_decode_def toy_encode_def toy_principal_claims_def
        demo_service_def)
  have b: "\<not> toy_expired
             (token_claims demo_service 0 ''A'' ''Alice'' (Some ''alice@example.org'') False) 1000"
    by (simp add: toy_expired_def toy_ser_def token_claims_def demo_service_def)
  have c: "toy_ser (0 + expiration_hours demo_service * 3600000000) = 86400000000"
    by (simp add: toy_ser_def demo_service_def)
  from verify_returns_issued_identity[OF a b] c show ?thesis
    by simp
qed

subsection \<open>Proposals outside the declared bounds\<close>

text \<open>
  Claim C1 fails on the code. In the session where \<open>A\<close> and \<open>B\<close> have joined (counter
  at 2), \<open>A\<close> proposes \<open>mu = 0.80\<close>, above the declared bound 0.7. The proposal is not
  rejected: the state takes \<open>mu = 0.80\<close>, the counter goes to 3, \<open>B\<close> is sent the
  broadcast, and the snapshot saved to the store carries \<open>mu = 0.80\<close>. The bounds are
  enforced only when a state is constructed: once both sockets have left, the next
  \<^verbatim>\<open>connect\<close> to the session raises a validation error on that snapshot.
\<close>

theorem out_of_bounds_update_is_applied:
  "session_seq joined_world ''s1'' = Some 2 \<and>
   map_option mu (session_state out_of_bounds_world ''s1'') = Some 0.8 \<and>
   session_seq out_of_bounds_world ''s1'' = Some 3 \<and>
   outbox out_of_bounds_world 2 =
     outbox joined_world 2 @
       [\<lparr>payload = ParamBroadcast ''A'' [(''mu'', 0.8)], seq = Some 3, timestamp = Some 4\<rparr>] \<and>
   map_option snap_mu (kv_state (redis out_of_bounds_world) ''s1'') = Some 0.8 \<and>
   active_connections out_of_bounds_closed ''s1'' = None \<and>
   fst (connect demo_env out_of_bounds_closed 3 ''s1'') = Some ValidationError"
  by code_simp

subsection \<open>Who conflicts with whom\<close>

text \<open>
  Claim C3 fails on the code. The last update of \<open>mu\<close> was made by \<open>A\<close> (the frame
  \<open>B\<close> received says so). One tenth of a second later \<open>A\<close> proposes \<open>mu = 0.65\<close>: the
  detector reports a conflict of \<open>A\<close> with her own update, and names \<open>B\<close>, the first
  other user of the roster, as the author; \<open>A\<close> is sent the \<^verbatim>\<open>conflict:detected\<close> frame
  and the state keeps \<open>mu = 0.60\<close>.
\<close>

theorem own_update_conflicts:
  "payload (last (outbox updated_world 2)) = ParamBroadcast ''A'' [(''mu'', 0.6)] \<and>
   detect_conflict demo_env updated_world 100004 ''s1'' ''mu'' 0.65 ''A'' =
     Inr (Some \<lparr>param = ''mu'', yourValue = 0.65, theirValue = 0.6,
                theirUserId = ''B'', theirUserName = ''Bob''\<rparr>) \<and>
   outbox (step demo_env updated_world (100004, Frame 1 ''s1'' (ParamUpdate [(''mu'', 0.65)]))) 1 =
     outbox updated_world 1 @
       [\<lparr>payload = ConflictDetected \<lparr>param = ''mu'', yourValue = 0.65, theirValue = 0.6,
                theirUserId = ''B'', theirUserName = ''Bob''\<rparr>, seq = None, timestamp = None\<rparr>] \<and>
   map_option mu (session_state (step demo_env updated_world (100004, Frame 1 ''s1'' (ParamUpdate [(''mu'', 0.65)]))) ''s1'') = Some 0.6"
  by code_simp

text \<open>Whether the detector reports a conflict does not depend on who proposes.\<close>

lemma detect_conflict_ignores_proposer:
  "detect_conflict e w now s p v u = Inr None \<longleftrightarrow> detect_conflict e w now s p v u' = Inr None"
  by (simp add: detect_conflict_def split: option.splits attr.splits)

subsection \<open>Keys that are not fields\<close>

text \<open>
  Claim C9 fails on the code for a key that names an attribute of the state object
  which is not a field. \<open>A\<close> proposes \<open>{compute_beta: 1}\<close>: the key passes the
  \<^verbatim>\<open>hasattr\<close> test, the assignment raises, and the broadcast is abandoned after the
  counter has gone from 2 to 3: \<open>B\<close> is sent nothing, nothing is appended to the
  history, and the \<^verbatim>\<open>finally\<close> block removes the socket of \<open>A\<close> from the session.
\<close>

theorem method_name_key_aborts_broadcast:
  "fst (handle_frame demo_env joined_world 1 ''s1'' 4 (ParamUpdate [(''compute_beta'', 1)])) = Some ValueError \<and>
   session_seq joined_world ''s1'' = Some 2 \<and>
   session_seq (snd (handle_frame demo_env joined_world 1 ''s1'' 4 (ParamUpdate [(''compute_beta'', 1)]))) ''s1'' = Some 3 \<and>
   outbox (snd (handle_frame demo_env joined_world 1 ''s1'' 4 (ParamUpdate [(''compute_beta'', 1)]))) 2 = outbox joined_world 2 \<and>
   kv_history (redis (snd (handle_frame demo_env joined_world 1 ''s1'' 4 (ParamUpdate [(''compute_beta'', 1)])))) ''s1'' = [] \<and>
   active_connections (step demo_env joined_world (4, Frame 1 ''s1'' (ParamUpdate [(''compute_beta'', 1)]))) ''s1'' = Some [2]"
  by code_simp

text \<open>
  For keys the state object does not have as attributes the loop does skip them: it
  behaves as on the proposal without them, and a proposal of only such keys changes
  nothing but the recomputed \<open>beta\<close> and the store.
\<close>

lemma apply_params_skips_unknown:
  "session_state w s = Some st \<Longrightarrow>
     apply_params e w s now ps =
       apply_params e w s now (filter (\<lambda>(k, v). hasattr_SessionState (inherited_attr e) k) ps)"
proof (induction ps arbitrary: w st)
  case Nil
  then show ?case
    by simp
next
  case (Cons a ps)
  obtain key v where a: "a = (key, v)"
    by (cases a)
  show ?case
  proof (cases "hasattr_SessionState (inherited_attr e) key")
    case False
    with Cons a show ?thesis
      by simp
  next
    case True
    show ?thesis
    proof (cases "setattr_SessionState st key v")
      case (Inl err)
      with True Cons.prems a show ?thesis
        by simp
    next
      case (Inr st')
      show ?thesis
      proof (cases "last_update_time w s")
        case None
        with True Inr Cons.prems a show ?thesis
          by simp
      next
        case (Some lut)
        let ?w2 = "w\<lparr>session_state := (session_state w)(s \<mapsto> st'),
                     last_update_time := (last_update_time w)(s \<mapsto> AList.update key now lut)\<rparr>"
        have "session_state ?w2 s = Some st'"
          by simp
        from Cons.IH[OF this] True Inr Some Cons.prems a show ?thesis
          by (simp add: Let_def)
      qed
    qed
  qed
qed

lemma unknown_keys_accepted:
  assumes "\<forall>(k, v) \<in> set ps. \<not> hasattr_SessionState (inherited_attr e) k"
    and "session_state w s = Some st"
  shows "update_state e w s (ParamBroadcast u ps) n now =
           (None, w\<lparr>session_state := (session_state w)(s \<mapsto> compute_beta st 10.8),
                    redis := add_to_history e
                      (save_session_state e (redis w) s (compute_beta st 10.8) n now) s u ps n now\<rparr>)"
proof -
  from assms(1) have "filter (\<lambda>(k, v). hasattr_SessionState (inherited_attr e) k) ps = []"
    by (auto simp: filter_empty_conv)
  with apply_params_skips_unknown[OF assms(2), of e now ps]
  have "apply_params e w s now ps = (None, w)"
    by simp
  with assms(2) show ?thesis
    by (simp add: update_state_def Let_def)
qed

text \<open>
  So a proposal of such keys only, on a live session whose other sockets accept the
  send, is accepted: the counter is bumped, the full parameter map is sent to every
  socket but the excluded one and appended to the history, the update times are
  untouched, and the state changes in nothing but the recomputed \<open>beta\<close>.
\<close>

lemma unknown_keys_proposal_accepted:
  assumes keys: "\<forall>(k, v) \<in> set ps. \<not> hasattr_SessionState (inherited_attr e) k"
    and live: "active_connections w s = Some conns" "distinct conns"
      "session_seq w s = Some n" "session_state w s = Some st"
    and sends: "\<forall>c \<in> set conns. Some c \<noteq> exclude \<longrightarrow> \<not> send_fails e c"
  shows "\<exists>w'. broadcast e w s (ParamBroadcast u ps) exclude now = (None, w') \<and>
           session_seq w' s = Some (n + 1) \<and>
           session_state w' s = Some (compute_beta st 10.8) \<and>
           last_update_time w' = last_update_time w \<and>
           redis w' = add_to_history e
             (save_session_state e (redis w) s (compute_beta st 10.8) (n + 1) now) s u ps (n + 1) now \<and>
           (\<forall>c. outbox w' c =
              (if c \<in> set conns \<and> Some c \<noteq> exclude
               then outbox w c @
                 [\<lparr>payload = ParamBroadcast u ps, seq = Some (n + 1), timestamp = Some now\<rparr>]
               else outbox w c))"
proof -
  let ?w1 = "w\<lparr>session_seq := (session_seq w)(s \<mapsto> n + 1)\<rparr>"
  let ?st = "compute_beta st 10.8"
  let ?w2 = "?w1\<lparr>session_state := (session_state ?w1)(s \<mapsto> ?st),
                 redis := add_to_history e
                   (save_session_state e (redis ?w1) s ?st (n + 1) now) s u ps (n + 1) now\<rparr>"
  let ?msg = "\<lparr>payload = ParamBroadcast u ps, seq = Some (n + 1), timestamp = Some now\<rparr>"
  from live(4) have "session_state ?w1 s = Some st"
    by simp
  from unknown_keys_accepted[OF keys this, of u "n + 1" now]
  have u: "update_state e ?w1 s (ParamBroadcast u ps) (n + 1) now = (None, ?w2)" .
  obtain w3 dead where f: "fan_out e ?w2 ?msg exclude conns = (w3, dead)"
    by (cases "fan_out e ?w2 ?msg exclude conns")
  from fan_out_dead[OF f] sends have dead: "dead = []"
    by (auto simp: filter_empty_conv)
  from live u f dead have b: "broadcast e w s (ParamBroadcast u ps) exclude now = (None, w3)"
    by (simp add: broadcast_def Let_def)
  from fan_out_other[OF f] have w3: "w3 = ?w2\<lparr>outbox := outbox w3\<rparr>" .
  have o: "outbox w3 c =
              (if c \<in> set conns \<and> Some c \<noteq> exclude
               then outbox w c @ [?msg] else outbox w c)" for c
    using fan_out_outbox[OF f live(2), of c] sends by auto
  have "session_seq w3 s = Some (n + 1)"
    by (subst w3) simp
  moreover have "session_state w3 s = Some ?st"
    by (subst w3) simp
  moreover have "last_update_time w3 = last_update_time w"
    by (subst w3) simp
  moreover have "redis w3 = add_to_history e
             (save_session_state e (redis w) s ?st (n + 1) now) s u ps (n + 1) now"
    by (subst w3) simp
  ultimately show ?thesis
    using b o by blast
qed

end
